theory Spec2Isabelle
  imports Main "HOL-Library.Sublist"
begin

section \<open>JavaScript strings\<close>

text \<open>
  A JavaScript string is a sequence of UTF-16 code units; \<open>lit\<close> turns an ASCII literal
  of the source into its code units. \<open>includes_str s t\<close> is \<open>s.includes(t)\<close>,
  \<open>trim\<close> is \<open>String.prototype.trim\<close> (it strips the WhiteSpace and LineTerminator
  code points of ECMAScript at both ends), \<open>join\<close> is \<open>Array.prototype.join\<close> on
  an array of strings, and \<open>String_num\<close> is the decimal text a template literal
  produces for an integer.
\<close>

type_synonym jsstring = "nat list"

definition lit :: "string \<Rightarrow> jsstring" where
  "lit cs = map of_char cs"

fun includes_str :: "jsstring \<Rightarrow> jsstring \<Rightarrow> bool" where
  "includes_str [] t = (t = [])"
| "includes_str (c # cs) t = (prefix t (c # cs) \<or> includes_str cs t)"

definition isWhiteSpace :: "nat \<Rightarrow> bool" where
  "isWhiteSpace c =
     (c = 0x9 \<or> c = 0xA \<or> c = 0xB \<or> c = 0xC \<or> c = 0xD \<or> c = 0x20 \<or> c = 0xA0
      \<or> c = 0x1680 \<or> (0x2000 \<le> c \<and> c \<le> 0x200A) \<or> c = 0x2028 \<or> c = 0x2029
      \<or> c = 0x202F \<or> c = 0x205F \<or> c = 0x3000 \<or> c = 0xFEFF)"

definition trim :: "jsstring \<Rightarrow> jsstring" where
  "trim s = rev (dropWhile isWhiteSpace (rev (dropWhile isWhiteSpace s)))"

fun join :: "jsstring \<Rightarrow> jsstring list \<Rightarrow> jsstring" where
  "join sep [] = []"
| "join sep [x] = x"
| "join sep (x # y # ys) = x @ sep @ join sep (y # ys)"

fun digits :: "nat \<Rightarrow> jsstring" where
  "digits n = (if n < 10 then [48 + n] else digits (n div 10) @ [48 + n mod 10])"

declare digits.simps [simp del]

definition String_num :: "int \<Rightarrow> jsstring" where
  "String_num i = (if i < 0 then 45 # digits (nat (- i)) else digits (nat i))"

text \<open>
  A field of a decoded JSON object is absent (\<open>None\<close>) or has the type the API gives
  it. \<open>template_str\<close> is the text of \<open>${x}\<close> for such a field, \<open>truthy_str\<close> its
  truth value in a condition, and \<open>or_else a b\<close> is \<open>a || b\<close> on strings.
\<close>

fun template_str :: "jsstring option \<Rightarrow> jsstring" where
  "template_str None = lit ''undefined''"
| "template_str (Some s) = s"

fun truthy_str :: "jsstring option \<Rightarrow> bool" where
  "truthy_str None = False"
| "truthy_str (Some s) = (s \<noteq> [])"

definition or_else :: "jsstring \<Rightarrow> jsstring \<Rightarrow> jsstring" where
  "or_else a b = (if a = [] then b else a)"

section \<open>The HTTP API as the client sees it\<close>

text \<open>
  \<open>fetch\<close> either rejects (\<open>NetworkError\<close> with the error's message) or resolves to
  a response with an HTTP status code, a content-type header (absent or a string)
  and a body; \<open>response.ok\<close> is true for the codes 200 to 299. Reading the body with
  \<open>response.json()\<close> either rejects (\<open>JsonError\<close> with the message) or yields the
  decoded object.
\<close>

datatype request = GET jsstring | POST jsstring jsstring

datatype 'a json = JsonError jsstring | Json 'a

datatype 'a response = NetworkError jsstring | Response nat "jsstring option" "'a json"

definition ok :: "nat \<Rightarrow> bool" where
  "ok code = (200 \<le> code \<and> code \<le> 299)"

record analyze_payload =
  job_id :: "jsstring option"

record status_payload =
  status :: "jsstring option"
  progress :: "int option"
  message :: "jsstring option"

record logs_payload =
  logs :: "jsstring list option"

record result_summary =
  nature :: jsstring
  products_services :: jsstring
  countries_operating :: "jsstring list"
  countries_dealing_with :: "jsstring list"

record analysis_result =
  summary :: result_summary

record results_payload =
  error :: "jsstring option"
  result :: "analysis_result option"

text \<open>
  One event of the page gets the answers of the remote service to the requests it
  issues: an event fetches every endpoint at most once.
\<close>

record env =
  analyze_response :: "analyze_payload response"
  status_response :: "status_payload response"
  results_response :: "results_payload response"
  logs_response :: "logs_payload response"

section \<open>Program state\<close>

text \<open>
  The three globals of \<open>app.js\<close>, the browser's table of repeating timers, the
  requests issued so far, and the properties of the page elements the script writes.
  The elements \<open>logs-section\<close> and \<open>logs-container\<close> are looked up under a guard
  in the source, so they may be absent (\<open>None\<close>). Scrolling, console output and the
  history table are not part of the state; of the results view, the summary block is.
\<close>

datatype callback = StatusPoll "jsstring option" | LogsPoll "jsstring option"

record state =
  API_BASE :: jsstring
  currentJobId :: "jsstring option"
  statusPollInterval :: "nat option"
  logsPollInterval :: "nat option"
  intervals :: "(nat \<times> callback) list"
  nextHandle :: nat
  requests :: "request list"
  urlInput_value :: jsstring
  submitBtn_disabled :: bool
  submitBtn_textContent :: jsstring
  statusSection_display :: jsstring
  resultsSection_display :: jsstring
  errorSection_display :: jsstring
  error_message_textContent :: jsstring
  progressFill_width :: jsstring
  progressFill_loading_animation :: bool
  statusMessage_textContent :: jsstring
  statusDetails_textContent :: jsstring
  logsSection_display :: "jsstring option"
  logs_container_innerHTML :: "jsstring option"
  business_summary_innerHTML :: jsstring

subsection \<open>Browser primitives\<close>

definition fetch :: "request \<Rightarrow> state \<Rightarrow> state" where
  "fetch r s = s\<lparr>requests := requests s @ [r]\<rparr>"

definition setInterval :: "callback \<Rightarrow> state \<Rightarrow> nat \<times> state" where
  "setInterval cb s =
     (nextHandle s,
      s\<lparr>intervals := intervals s @ [(nextHandle s, cb)], nextHandle := Suc (nextHandle s)\<rparr>)"

fun clearInterval :: "nat option \<Rightarrow> state \<Rightarrow> state" where
  "clearInterval None s = s"
| "clearInterval (Some h) s = s\<lparr>intervals := filter (\<lambda>t. fst t \<noteq> h) (intervals s)\<rparr>"

fun truthy_handle :: "nat option \<Rightarrow> bool" where
  "truthy_handle None = False"
| "truthy_handle (Some h) = (h \<noteq> 0)"

definition is_json_content_type :: "jsstring option \<Rightarrow> bool" where
  "is_json_content_type ct =
     (case ct of None \<Rightarrow> False | Some c \<Rightarrow> c \<noteq> [] \<and> includes_str c (lit ''application/json''))"

fun escapeHtml_char :: "nat \<Rightarrow> jsstring" where
  "escapeHtml_char c =
     (if c = 38 then lit ''&amp;'' else if c = 60 then lit ''&lt;''
      else if c = 62 then lit ''&gt;'' else if c = 160 then lit ''&nbsp;'' else [c])"

definition escapeHtml :: "jsstring \<Rightarrow> jsstring" where
  "escapeHtml text = concat (map escapeHtml_char text)"

subsection \<open>Show/hide sections\<close>

text \<open>\<open>app.js\<close>, lines 389 to 417.\<close>

definition showStatus :: "state \<Rightarrow> state" where
  "showStatus s = s\<lparr>statusSection_display := lit ''block''\<rparr>"

definition hideStatus :: "state \<Rightarrow> state" where
  "hideStatus s = s\<lparr>statusSection_display := lit ''none''\<rparr>"

definition showResults :: "state \<Rightarrow> state" where
  "showResults s = s\<lparr>resultsSection_display := lit ''block''\<rparr>"

definition hideResults :: "state \<Rightarrow> state" where
  "hideResults s = s\<lparr>resultsSection_display := lit ''none''\<rparr>"

definition showError :: "jsstring \<Rightarrow> state \<Rightarrow> state" where
  "showError msg s = s\<lparr>errorSection_display := lit ''block'', error_message_textContent := msg\<rparr>"

definition hideError :: "state \<Rightarrow> state" where
  "hideError s = s\<lparr>errorSection_display := lit ''none''\<rparr>"

subsection \<open>updateStatusDisplay\<close>

text \<open>
  \<open>app.js\<close>, lines 139 to 154. The class \<open>loading-animation\<close> of the progress bar
  is a flag; \<open>status.progress || 0\<close> is 0 for an absent field and for 0.
\<close>

definition updateStatusDisplay :: "status_payload \<Rightarrow> state \<Rightarrow> state" where
  "updateStatusDisplay st s =
     (let p = (case progress st of None \<Rightarrow> 0 | Some n \<Rightarrow> n) in
      s\<lparr>progressFill_width := (if p < 5 then lit ''100%'' else String_num p @ lit ''%''),
        progressFill_loading_animation := (p < 5),
        statusMessage_textContent :=
          (if truthy_str (message st) then template_str (message st)
           else lit ''Status: '' @ template_str (status st)),
        statusDetails_textContent :=
          (if p > 0 then lit ''Progress: '' @ String_num p @ lit ''%''
           else lit ''Processing...'')\<rparr>)"

subsection \<open>displayResults (summary block) and loadResults\<close>

text \<open>
  \<open>app.js\<close>, lines 157 to 191, 294 to 307 and 382 to 387. The template literal of
  the summary block starts each line with a line feed and eight spaces and ends with
  a line feed and four spaces. \<open>loadResults\<close> does not look at the content type.
\<close>

definition nl8 :: jsstring where
  "nl8 = 10 # replicate 8 32"

definition displayResults :: "analysis_result \<Rightarrow> state \<Rightarrow> state" where
  "displayResults r s =
     s\<lparr>business_summary_innerHTML :=
         nl8 @ lit ''<p><strong>Nature:</strong> '' @ nature (summary r) @ lit ''</p>''
       @ nl8 @ lit ''<p><strong>Products/Services:</strong> ''
             @ products_services (summary r) @ lit ''</p>''
       @ nl8 @ lit ''<p><strong>Countries Operating:</strong> ''
             @ or_else (join (lit '', '') (countries_operating (summary r))) (lit ''N/A'')
             @ lit ''</p>''
       @ nl8 @ lit ''<p><strong>Countries Dealing With:</strong> ''
             @ or_else (join (lit '', '') (countries_dealing_with (summary r))) (lit ''N/A'')
             @ lit ''</p>''
       @ 10 # replicate 4 32\<rparr>"

definition loadResults :: "jsstring option \<Rightarrow> results_payload response \<Rightarrow> state \<Rightarrow> state" where
  "loadResults jobId resp s =
     (let s1 = fetch (GET (API_BASE s @ lit ''/results/'' @ template_str jobId)) s in
      case resp of
        NetworkError m \<Rightarrow> showError (lit ''Error loading results: '' @ m) s1
      | Response code ct body \<Rightarrow>
          if \<not> ok code then showError (lit ''Error loading results: Failed to get results'') s1
          else (case body of
                  JsonError m \<Rightarrow> showError (lit ''Error loading results: '' @ m) s1
                | Json data \<Rightarrow>
                    if truthy_str (error data) then showError (template_str (error data)) s1
                    else (case result data of
                            Some r \<Rightarrow> showResults (hideStatus (displayResults r s1))
                          | None \<Rightarrow> s1)))"

definition viewResults :: "jsstring \<Rightarrow> results_payload response \<Rightarrow> state \<Rightarrow> state" where
  "viewResults jobId resp s = loadResults (Some jobId) resp (s\<lparr>currentJobId := Some jobId\<rparr>)"

definition loadHistory :: "state \<Rightarrow> state" where
  "loadHistory s = fetch (GET (API_BASE s @ lit ''/history?limit=20'')) s"

subsection \<open>The Status Poller\<close>

text \<open>
  \<open>app.js\<close>, lines 88 to 137. \<open>statusTick\<close> is the callback given to
  \<open>setInterval\<close>; every \<open>throw\<close> of its body lands in its \<open>catch\<close> block, which
  changes nothing.
\<close>

definition terminal :: "status_payload \<Rightarrow> bool" where
  "terminal st = (status st = Some (lit ''completed'') \<or> status st = Some (lit ''failed''))"

definition startStatusPolling :: "jsstring option \<Rightarrow> state \<Rightarrow> state" where
  "startStatusPolling jobId s =
     (let s1 = (if truthy_handle (statusPollInterval s)
                then clearInterval (statusPollInterval s) s else s);
          (h, s2) = setInterval (StatusPoll jobId) s1
      in s2\<lparr>statusPollInterval := Some h\<rparr>)"

definition statusTick ::
  "jsstring option \<Rightarrow> status_payload response \<Rightarrow> results_payload response \<Rightarrow> state \<Rightarrow> state" where
  "statusTick jobId resp rresp s =
     (let s1 = fetch (GET (API_BASE s @ lit ''/status/'' @ template_str jobId)) s in
      case resp of
        NetworkError m \<Rightarrow> s1
      | Response code ct body \<Rightarrow>
          if \<not> ok code then s1
          else if \<not> is_json_content_type ct then s1
          else (case body of
                  JsonError m \<Rightarrow> s1
                | Json st \<Rightarrow>
                    let s2 = updateStatusDisplay st s1 in
                    if terminal st then
                      let s3 = (clearInterval (statusPollInterval s2) s2)
                                 \<lparr>statusPollInterval := None\<rparr>;
                          s4 = (if truthy_handle (logsPollInterval s3)
                                then (clearInterval (logsPollInterval s3) s3)
                                       \<lparr>logsPollInterval := None\<rparr>
                                else s3)
                      in if status st = Some (lit ''completed'')
                         then loadResults jobId rresp s4
                         else showError (lit ''Analysis failed. Please try again.'') s4
                    else s2))"

subsection \<open>The Log Stream Poller\<close>

text \<open>
  \<open>app.js\<close>, lines 420 to 487. The two non-ASCII markers are the code units of the
  literals as the source file has them. \<open>logClassName\<close> and \<open>logLine\<close> are the body
  of the function mapped over the lines in \<open>displayLogs\<close>; \<open>logsTick\<close> is the
  callback given to \<open>setInterval\<close>.
\<close>

definition marker_error :: jsstring where
  "marker_error = [0x201A, 0xFA, 0xF3]"

definition marker_success :: jsstring where
  "marker_success = [0x201A, 0xFA, 0xEC]"

definition logClassName :: "jsstring \<Rightarrow> jsstring" where
  "logClassName log =
     lit ''log-line'' @
     (if includes_str log (lit ''[WORKER]'') then lit '' worker''
      else if includes_str log (lit ''[SCRAPER]'') then lit '' scraper''
      else if includes_str log (lit ''[EXTRACTOR]'') then lit '' extractor''
      else if includes_str log marker_error \<or> includes_str log (lit ''ERROR'')
              \<or> includes_str log (lit ''Error'') then lit '' error''
      else if includes_str log marker_success \<or> includes_str log (lit ''completed'')
           then lit '' success''
      else [])"

definition logLine :: "jsstring \<Rightarrow> jsstring" where
  "logLine log = lit ''<div class=\"'' @ logClassName log @ lit ''\">'' @ escapeHtml log @ lit ''</div>''"

definition displayLogs :: "jsstring list \<Rightarrow> state \<Rightarrow> state" where
  "displayLogs ls s =
     (case logs_container_innerHTML s of
        None \<Rightarrow> s
      | Some old \<Rightarrow> s\<lparr>logs_container_innerHTML := Some (concat (map logLine ls))\<rparr>)"

definition startLogsPolling :: "jsstring option \<Rightarrow> state \<Rightarrow> state" where
  "startLogsPolling jobId s =
     (let s1 = (if truthy_handle (logsPollInterval s)
                then clearInterval (logsPollInterval s) s else s);
          s2 = s1\<lparr>logsSection_display := map_option (\<lambda>d. lit ''block'') (logsSection_display s1)\<rparr>;
          (h, s3) = setInterval (LogsPoll jobId) s2
      in s3\<lparr>logsPollInterval := Some h\<rparr>)"


subsection \<open>handleFormSubmit\<close>

text \<open>
  \<open>app.js\<close>, lines 29 to 85. \<open>handleFormSubmit_catch\<close> is the \<open>catch\<close> block, with
  the message of the caught error. The body of the submission request is the JSON
  object with the one field \<open>url\<close>; \<open>POST u v\<close> records its address and that field.
\<close>

definition handleFormSubmit_catch :: "jsstring \<Rightarrow> state \<Rightarrow> state" where
  "handleFormSubmit_catch m s =
     (showError (lit ''Error: '' @ m) (hideStatus s))
       \<lparr>submitBtn_disabled := False, submitBtn_textContent := lit ''Analyze Website''\<rparr>"

definition handleFormSubmit :: "analyze_payload response \<Rightarrow> state \<Rightarrow> state" where
  "handleFormSubmit resp s =
     (let url = trim (urlInput_value s) in
      if url = [] then showError (lit ''Please enter a valid URL'') s
      else
        let s1 = s\<lparr>submitBtn_disabled := True, submitBtn_textContent := lit ''Submitting...''\<rparr>;
            s2 = showStatus (hideResults (hideError s1));
            s3 = updateStatusDisplay
                   \<lparr>status = Some (lit ''processing''), progress = Some 0,
                    message = Some (lit ''Submitting analysis request...'')\<rparr> s2;
            s4 = fetch (POST (API_BASE s @ lit ''/analyze'') url) s3
        in case resp of
             NetworkError m \<Rightarrow> handleFormSubmit_catch m s4
           | Response code ct body \<Rightarrow>
               if \<not> ok code then handleFormSubmit_catch (lit ''Failed to submit analysis'') s4
               else (case body of
                       JsonError m \<Rightarrow> handleFormSubmit_catch m s4
                     | Json data \<Rightarrow>
                         let s5 = s4\<lparr>currentJobId := job_id data\<rparr>;
                             s6 = startLogsPolling (job_id data) (startStatusPolling (job_id data) s5);
                             s7 = s6\<lparr>urlInput_value := [], submitBtn_disabled := False,
                                    submitBtn_textContent := lit ''Analyze Website''\<rparr>
                         in loadHistory s7))"

section \<open>The page as a transition system\<close>

text \<open>
  Every handler of \<open>app.js\<close> is an async function: it runs until it awaits a request,
  and its remainder runs when the response is there, on the globals as they are at that
  moment. In between, any other handler may run. \<open>clearInterval\<close> keeps a timer from
  firing again; it does not stop a callback that is already awaiting its response.

  The definitions above give each handler as the source has it, from its first line to
  its last. The definitions below cut the same handlers at their requests: the part
  that runs up to the request, and the part that runs on the response. Reading the
  body of a response is taken together with the response, since no handler changes
  the state between these two awaits. An await in flight is recorded with what its
  remainder still needs, the job identifier.
\<close>

datatype pending =
    AwaitAnalyze
  | AwaitStatus "jsstring option"
  | AwaitResults
  | AwaitLogs "jsstring option"
  | AwaitLogsStatus
  | AwaitHistory

definition handleFormSubmit_start :: "state \<Rightarrow> state \<times> pending list" where
  "handleFormSubmit_start s =
     (let url = trim (urlInput_value s) in
      if url = [] then (showError (lit ''Please enter a valid URL'') s, [])
      else
        let s1 = s\<lparr>submitBtn_disabled := True, submitBtn_textContent := lit ''Submitting...''\<rparr>;
            s2 = showStatus (hideResults (hideError s1));
            s3 = updateStatusDisplay
                   \<lparr>status = Some (lit ''processing''), progress = Some 0,
                    message = Some (lit ''Submitting analysis request...'')\<rparr> s2
        in (fetch (POST (API_BASE s @ lit ''/analyze'') url) s3, [AwaitAnalyze]))"

definition handleFormSubmit_resume ::
  "analyze_payload response \<Rightarrow> state \<Rightarrow> state \<times> pending list" where
  "handleFormSubmit_resume resp s4 =
     (case resp of
        NetworkError m \<Rightarrow> (handleFormSubmit_catch m s4, [])
      | Response code ct body \<Rightarrow>
          if \<not> ok code then (handleFormSubmit_catch (lit ''Failed to submit analysis'') s4, [])
          else (case body of
                  JsonError m \<Rightarrow> (handleFormSubmit_catch m s4, [])
                | Json data \<Rightarrow>
                    let s5 = s4\<lparr>currentJobId := job_id data\<rparr>;
                        s6 = startLogsPolling (job_id data) (startStatusPolling (job_id data) s5);
                        s7 = s6\<lparr>urlInput_value := [], submitBtn_disabled := False,
                               submitBtn_textContent := lit ''Analyze Website''\<rparr>
                    in (loadHistory s7, [AwaitHistory])))"

definition loadResults_start :: "jsstring option \<Rightarrow> state \<Rightarrow> state" where
  "loadResults_start jobId s = fetch (GET (API_BASE s @ lit ''/results/'' @ template_str jobId)) s"

definition loadResults_resume :: "results_payload response \<Rightarrow> state \<Rightarrow> state" where
  "loadResults_resume resp s1 =
     (case resp of
        NetworkError m \<Rightarrow> showError (lit ''Error loading results: '' @ m) s1
      | Response code ct body \<Rightarrow>
          if \<not> ok code then showError (lit ''Error loading results: Failed to get results'') s1
          else (case body of
                  JsonError m \<Rightarrow> showError (lit ''Error loading results: '' @ m) s1
                | Json data \<Rightarrow>
                    if truthy_str (error data) then showError (template_str (error data)) s1
                    else (case result data of
                            Some r \<Rightarrow> showResults (hideStatus (displayResults r s1))
                          | None \<Rightarrow> s1)))"

definition statusTick_start :: "jsstring option \<Rightarrow> state \<Rightarrow> state" where
  "statusTick_start jobId s = fetch (GET (API_BASE s @ lit ''/status/'' @ template_str jobId)) s"

definition statusTick_resume ::
  "jsstring option \<Rightarrow> status_payload response \<Rightarrow> state \<Rightarrow> state \<times> pending list" where
  "statusTick_resume jobId resp s1 =
     (case resp of
        NetworkError m \<Rightarrow> (s1, [])
      | Response code ct body \<Rightarrow>
          if \<not> ok code then (s1, [])
          else if \<not> is_json_content_type ct then (s1, [])
          else (case body of
                  JsonError m \<Rightarrow> (s1, [])
                | Json st \<Rightarrow>
                    let s2 = updateStatusDisplay st s1 in
                    if terminal st then
                      let s3 = (clearInterval (statusPollInterval s2) s2)
                                 \<lparr>statusPollInterval := None\<rparr>;
                          s4 = (if truthy_handle (logsPollInterval s3)
                                then (clearInterval (logsPollInterval s3) s3)
                                       \<lparr>logsPollInterval := None\<rparr>
                                else s3)
                      in if status st = Some (lit ''completed'')
                         then (loadResults_start jobId s4, [AwaitResults])
                         else (showError (lit ''Analysis failed. Please try again.'') s4, [])
                    else (s2, [])))"

definition logsTick_start :: "jsstring option \<Rightarrow> state \<Rightarrow> state" where
  "logsTick_start jobId s = fetch (GET (API_BASE s @ lit ''/logs/'' @ template_str jobId)) s"

definition logsTick_resume ::
  "jsstring option \<Rightarrow> logs_payload response \<Rightarrow> state \<Rightarrow> state \<times> pending list" where
  "logsTick_resume jobId resp s1 =
     (case resp of
        NetworkError m \<Rightarrow> (s1, [])
      | Response code ct body \<Rightarrow>
          if \<not> ok code then (s1, [])
          else if \<not> is_json_content_type ct then (s1, [])
          else (case body of
                  JsonError m \<Rightarrow> (s1, [])
                | Json data \<Rightarrow>
                    let s2 = displayLogs (case logs data of None \<Rightarrow> [] | Some ls \<Rightarrow> ls) s1
                    in (fetch (GET (API_BASE s2 @ lit ''/status/'' @ template_str jobId)) s2,
                        [AwaitLogsStatus])))"

definition logsTick_resume_status :: "status_payload response \<Rightarrow> state \<Rightarrow> state" where
  "logsTick_resume_status sresp s3 =
     (case sresp of
        NetworkError m \<Rightarrow> s3
      | Response scode sct sbody \<Rightarrow>
          if ok scode then
            (case sbody of
               JsonError m \<Rightarrow> s3
             | Json st \<Rightarrow>
                 if terminal st
                 then (clearInterval (logsPollInterval s3) s3)\<lparr>logsPollInterval := None\<rparr>
                 else s3)
          else s3)"

text \<open>
  A configuration is the page with the awaits in flight. An event is a user action, a
  timer firing, or the resumption of one await in flight, chosen by its position; the
  resumed remainder gets the answer of the service from \<open>env\<close>. A timer that is not in
  the browser's table does not fire, and a position beyond the awaits in flight resumes
  nothing. The remainder of \<open>loadHistory\<close> writes the history table only, which is not
  part of the state. \<open>run\<close> takes a list of events with their answers one after the
  other; \<open>tick_and_resolve\<close> is a timer firing whose request is answered before
  anything else happens.
\<close>

type_synonym config = "state \<times> pending list"

datatype event =
    TypeUrl jsstring
  | SubmitForm
  | TimerFires nat
  | ViewResults jsstring
  | LoadHistory
  | Resume nat

fun resume :: "pending \<Rightarrow> env \<Rightarrow> state \<Rightarrow> state \<times> pending list" where
  "resume AwaitAnalyze e s = handleFormSubmit_resume (analyze_response e) s"
| "resume (AwaitStatus j) e s = statusTick_resume j (status_response e) s"
| "resume AwaitResults e s = (loadResults_resume (results_response e) s, [])"
| "resume (AwaitLogs j) e s = logsTick_resume j (logs_response e) s"
| "resume AwaitLogsStatus e s = (logsTick_resume_status (status_response e) s, [])"
| "resume AwaitHistory e s = (s, [])"

fun step :: "event \<Rightarrow> env \<Rightarrow> config \<Rightarrow> config" where
  "step (TypeUrl v) e (s, ps) = (s\<lparr>urlInput_value := v\<rparr>, ps)"
| "step SubmitForm e (s, ps) =
     (fst (handleFormSubmit_start s), ps @ snd (handleFormSubmit_start s))"
| "step (TimerFires h) e (s, ps) =
     (case map_of (intervals s) h of
        None \<Rightarrow> (s, ps)
      | Some (StatusPoll j) \<Rightarrow> (statusTick_start j s, ps @ [AwaitStatus j])
      | Some (LogsPoll j) \<Rightarrow> (logsTick_start j s, ps @ [AwaitLogs j]))"
| "step (ViewResults j) e (s, ps) =
     (loadResults_start (Some j) (s\<lparr>currentJobId := Some j\<rparr>), ps @ [AwaitResults])"
| "step LoadHistory e (s, ps) = (loadHistory s, ps @ [AwaitHistory])"
| "step (Resume k) e (s, ps) =
     (if k < length ps
      then (fst (resume (ps ! k) e s), take k ps @ drop (Suc k) ps @ snd (resume (ps ! k) e s))
      else (s, ps))"

definition run :: "(event \<times> env) list \<Rightarrow> config \<Rightarrow> config" where
  "run evs c = fold (\<lambda>p. step (fst p) (snd p)) evs c"

definition tick_and_resolve :: "nat \<Rightarrow> env \<Rightarrow> config \<Rightarrow> config" where
  "tick_and_resolve h e c = step (Resume (length (snd c))) e (step (TimerFires h) e c)"

definition initial :: "state \<Rightarrow> bool" where
  "initial s =
     (currentJobId s = None \<and> statusPollInterval s = None \<and> logsPollInterval s = None
      \<and> intervals s = [] \<and> 0 < nextHandle s \<and> requests s = [])"

inductive reachable :: "config \<Rightarrow> bool" where
  reachable_initial: "initial s \<Longrightarrow> reachable (s, [])"
| reachable_step: "reachable c \<Longrightarrow> reachable (step ev e c)"

section \<open>Vocabulary of the properties\<close>

text \<open>
  A poller is active when the browser's timer table holds its handle with its callback.
  \<open>pollers_ok\<close> is the invariant that ties the two global handles to the timer table: the
  global names an active poller of its kind, every active poller is the one its global
  names, and handles are positive, below the next fresh one and pairwise distinct.
\<close>

definition status_poller_active :: "nat \<Rightarrow> state \<Rightarrow> bool" where
  "status_poller_active h s =
     (case map_of (intervals s) h of Some (StatusPoll j) \<Rightarrow> True | _ \<Rightarrow> False)"

definition logs_poller_active :: "nat \<Rightarrow> state \<Rightarrow> bool" where
  "logs_poller_active h s =
     (case map_of (intervals s) h of Some (LogsPoll j) \<Rightarrow> True | _ \<Rightarrow> False)"

definition timers_ok ::
  "nat option \<Rightarrow> nat option \<Rightarrow> (nat \<times> callback) list \<Rightarrow> nat \<Rightarrow> bool" where
  "timers_ok sp lp iv n =
     ((\<forall>h. sp = Some h \<longrightarrow> (\<exists>j. (h, StatusPoll j) \<in> set iv))
      \<and> (\<forall>h j. (h, StatusPoll j) \<in> set iv \<longrightarrow> sp = Some h)
      \<and> (\<forall>h. lp = Some h \<longrightarrow> (\<exists>j. (h, LogsPoll j) \<in> set iv))
      \<and> (\<forall>h j. (h, LogsPoll j) \<in> set iv \<longrightarrow> lp = Some h)
      \<and> (\<forall>t \<in> set iv. 0 < fst t \<and> fst t < n)
      \<and> distinct (map fst iv)
      \<and> 0 < n)"

definition timers :: "state \<Rightarrow> nat option \<times> nat option \<times> (nat \<times> callback) list \<times> nat" where
  "timers s = (statusPollInterval s, logsPollInterval s, intervals s, nextHandle s)"

definition pollers_ok :: "state \<Rightarrow> bool" where
  "pollers_ok s =
     timers_ok (statusPollInterval s) (logsPollInterval s) (intervals s) (nextHandle s)"

text \<open>
  \<open>stop_pollers\<close> names the two \<open>clearInterval\<close> calls of the terminal branch of the
  Status Poller's tick, \<open>stop_logs\<close> the one of the Log Stream Poller's tick.
\<close>

definition stop_pollers :: "state \<Rightarrow> state" where
  "stop_pollers s =
     (let s3 = (clearInterval (statusPollInterval s) s)\<lparr>statusPollInterval := None\<rparr>
      in if truthy_handle (logsPollInterval s3)
         then (clearInterval (logsPollInterval s3) s3)\<lparr>logsPollInterval := None\<rparr>
         else s3)"

definition stop_logs :: "state \<Rightarrow> state" where
  "stop_logs s = (clearInterval (logsPollInterval s) s)\<lparr>logsPollInterval := None\<rparr>"

text \<open>
  What a status response is to the Status Poller's tick: a terminal observation (a 2xx
  JSON response that decodes to status \<open>completed\<close> or \<open>failed\<close>), or a transient
  error (the fetch fails, the code is not 2xx, the content type is not JSON, or the body
  does not parse).
\<close>

definition observes_terminal :: "status_payload response \<Rightarrow> bool" where
  "observes_terminal r =
     (case r of
        NetworkError m \<Rightarrow> False
      | Response code ct body \<Rightarrow>
          ok code \<and> is_json_content_type ct
          \<and> (case body of JsonError m \<Rightarrow> False | Json st \<Rightarrow> terminal st))"

definition observes_status :: "jsstring \<Rightarrow> status_payload response \<Rightarrow> bool" where
  "observes_status v r =
     (case r of
        NetworkError m \<Rightarrow> False
      | Response code ct body \<Rightarrow>
          ok code \<and> is_json_content_type ct
          \<and> (case body of JsonError m \<Rightarrow> False | Json st \<Rightarrow> status st = Some v))"

text \<open>
  The Log Stream Poller's tick reaches its own status check when the logs response is a
  2xx JSON response whose body parses; it then stops itself when the status response
  is 2xx and decodes to a terminal status.
\<close>

definition logs_decoded :: "logs_payload response \<Rightarrow> bool" where
  "logs_decoded r =
     (case r of
        NetworkError m \<Rightarrow> False
      | Response code ct body \<Rightarrow>
          ok code \<and> is_json_content_type ct
          \<and> (case body of JsonError m \<Rightarrow> False | Json d \<Rightarrow> True))"

definition status_says_done :: "status_payload response \<Rightarrow> bool" where
  "status_says_done r =
     (case r of
        NetworkError m \<Rightarrow> False
      | Response code ct body \<Rightarrow>
          ok code \<and> (case body of JsonError m \<Rightarrow> False | Json st \<Rightarrow> terminal st))"

definition transient_error :: "'a response \<Rightarrow> bool" where
  "transient_error r =
     (case r of
        NetworkError m \<Rightarrow> True
      | Response code ct body \<Rightarrow>
          \<not> ok code \<or> \<not> is_json_content_type ct
          \<or> (case body of JsonError m \<Rightarrow> True | Json v \<Rightarrow> False))"

text \<open>
  A submission succeeds when the trimmed input is not empty and the request to
  \<open>/analyze\<close> resolves to a 2xx response whose body parses; it fails when the fetch
  rejects or the code is not 2xx.
\<close>

definition submission_succeeds :: "analyze_payload response \<Rightarrow> state \<Rightarrow> bool" where
  "submission_succeeds r s =
     (trim (urlInput_value s) \<noteq> []
      \<and> (case r of
            NetworkError m \<Rightarrow> False
          | Response code ct body \<Rightarrow>
              ok code \<and> (case body of JsonError m \<Rightarrow> False | Json d \<Rightarrow> True)))"

definition analyze_decoded :: "analyze_payload response \<Rightarrow> bool" where
  "analyze_decoded r =
     (case r of
        NetworkError m \<Rightarrow> False
      | Response code ct body \<Rightarrow>
          ok code \<and> (case body of JsonError m \<Rightarrow> False | Json d \<Rightarrow> True))"

text \<open>
  \<open>submit_prepared\<close> is the page at the moment \<open>handleFormSubmit\<close> awaits the
  answer to its request: the button is disabled, the status section is shown with the
  synthetic message, and the request has been issued.
\<close>

definition submit_prepared :: "state \<Rightarrow> state" where
  "submit_prepared s =
     fetch (POST (API_BASE s @ lit ''/analyze'') (trim (urlInput_value s)))
       (updateStatusDisplay
          \<lparr>status = Some (lit ''processing''), progress = Some 0,
           message = Some (lit ''Submitting analysis request...'')\<rparr>
          (showStatus (hideResults (hideError
             (s\<lparr>submitBtn_disabled := True, submitBtn_textContent := lit ''Submitting...''\<rparr>)))))"

fun request_fails :: "'a response \<Rightarrow> bool" where
  "request_fails (NetworkError m) = True"
| "request_fails (Response code ct body) = (\<not> ok code)"

fun failure_message :: "'a response \<Rightarrow> jsstring" where
  "failure_message (NetworkError m) = m"
| "failure_message (Response code ct body) = lit ''Failed to submit analysis''"

text \<open>
  The classification of a log line as the specification words it: an ordered table of
  categories with their markers, read with first-match priority, and \<open>Plain\<close> when
  no row matches. \<open>category_class\<close> is the CSS class a category adds.
\<close>

datatype category = Worker | Scraper | Extractor | ErrorLine | Success | Plain

definition category_markers :: "(category \<times> jsstring list) list" where
  "category_markers =
     [(Worker, [lit ''[WORKER]'']),
      (Scraper, [lit ''[SCRAPER]'']),
      (Extractor, [lit ''[EXTRACTOR]'']),
      (ErrorLine, [marker_error, lit ''ERROR'', lit ''Error'']),
      (Success, [marker_success, lit ''completed''])]"

fun first_match :: "(category \<times> jsstring list) list \<Rightarrow> jsstring \<Rightarrow> category" where
  "first_match [] log = Plain"
| "first_match (r # rs) log =
     (if list_ex (includes_str log) (snd r) then fst r else first_match rs log)"

fun category_class :: "category \<Rightarrow> jsstring" where
  "category_class Worker = lit '' worker''"
| "category_class Scraper = lit '' scraper''"
| "category_class Extractor = lit '' extractor''"
| "category_class ErrorLine = lit '' error''"
| "category_class Success = lit '' success''"
| "category_class Plain = []"

definition has_error_marker :: "jsstring \<Rightarrow> bool" where
  "has_error_marker log =
     (includes_str log marker_error \<or> includes_str log (lit ''ERROR'')
      \<or> includes_str log (lit ''Error''))"

text \<open>
  The markup of the summary block with its four slots, and the text that stands for a
  country set: the names joined with a comma and a space, or \<open>N/A\<close> for the empty
  set and for the set whose only name is the empty string.
\<close>

definition summary_markup :: "jsstring \<Rightarrow> jsstring \<Rightarrow> jsstring \<Rightarrow> jsstring \<Rightarrow> jsstring" where
  "summary_markup n p co cd =
       nl8 @ lit ''<p><strong>Nature:</strong> '' @ n @ lit ''</p>''
     @ nl8 @ lit ''<p><strong>Products/Services:</strong> '' @ p @ lit ''</p>''
     @ nl8 @ lit ''<p><strong>Countries Operating:</strong> '' @ co @ lit ''</p>''
     @ nl8 @ lit ''<p><strong>Countries Dealing With:</strong> '' @ cd @ lit ''</p>''
     @ 10 # replicate 4 32"

definition countries_text :: "jsstring list \<Rightarrow> jsstring" where
  "countries_text cs = (if cs = [] \<or> cs = [[]] then lit ''N/A'' else join (lit '', '') cs)"

section \<open>A concrete page and concrete answers of the service\<close>

text \<open>
  \<open>page0\<close> is the page after loading with the default API base; \<open>page1\<close> is the page
  after the user has typed a URL and the submission has succeeded with job
  \<open>abc123\<close>. The environments answer with a job in progress, a completed job, a
  failed job, a service that is down, and the submission of a second job.
\<close>

definition page0 :: state where
  "page0 =
     \<lparr>API_BASE = lit ''/api'', currentJobId = None, statusPollInterval = None,
      logsPollInterval = None, intervals = [], nextHandle = 1, requests = [],
      urlInput_value = [], submitBtn_disabled = False,
      submitBtn_textContent = lit ''Analyze Website'', statusSection_display = lit ''none'',
      resultsSection_display = lit ''none'', errorSection_display = lit ''none'',
      error_message_textContent = [], progressFill_width = lit ''0%'',
      progressFill_loading_animation = False, statusMessage_textContent = [],
      statusDetails_textContent = [], logsSection_display = Some (lit ''none''),
      logs_container_innerHTML = Some [], business_summary_innerHTML = []\<rparr>"

definition json_type :: "jsstring option" where
  "json_type = Some (lit ''application/json'')"

definition summary_gb_fr :: result_summary where
  "summary_gb_fr =
     \<lparr>nature = lit ''Retail'', products_services = lit ''Shoes'',
      countries_operating = [lit ''GB'', lit ''FR''], countries_dealing_with = []\<rparr>"

definition summary_blank_country :: result_summary where
  "summary_blank_country =
     \<lparr>nature = lit ''Retail'', products_services = lit ''Shoes'',
      countries_operating = [[]], countries_dealing_with = [lit ''GB'', lit ''FR'']\<rparr>"

definition env_processing :: "int \<Rightarrow> env" where
  "env_processing p =
     \<lparr>analyze_response = Response 200 json_type (Json \<lparr>job_id = Some (lit ''abc123'')\<rparr>),
      status_response = Response 200 json_type
        (Json \<lparr>status = Some (lit ''processing''), progress = Some p, message = None\<rparr>),
      results_response = Response 404 json_type (JsonError (lit ''no body'')),
      logs_response = Response 200 json_type
        (Json \<lparr>logs = Some [lit ''[SCRAPER] ERROR: timeout'']\<rparr>)\<rparr>"

definition env_completed :: env where
  "env_completed =
     \<lparr>analyze_response = Response 200 json_type (Json \<lparr>job_id = Some (lit ''abc123'')\<rparr>),
      status_response = Response 200 json_type
        (Json \<lparr>status = Some (lit ''completed''), progress = Some 100, message = None\<rparr>),
      results_response = Response 200 json_type
        (Json \<lparr>error = None, result = Some \<lparr>summary = summary_gb_fr\<rparr>\<rparr>),
      logs_response = Response 200 json_type (Json \<lparr>logs = Some []\<rparr>)\<rparr>"

definition env_failed :: env where
  "env_failed =
     \<lparr>analyze_response = Response 200 json_type (Json \<lparr>job_id = Some (lit ''abc123'')\<rparr>),
      status_response = Response 200 json_type
        (Json \<lparr>status = Some (lit ''failed''), progress = None,
               message = Some (lit ''scrape error'')\<rparr>),
      results_response = Response 404 json_type (JsonError (lit ''no body'')),
      logs_response = Response 200 json_type (Json \<lparr>logs = Some []\<rparr>)\<rparr>"

definition env_down :: env where
  "env_down =
     \<lparr>analyze_response = Response 503 None (JsonError (lit ''no body'')),
      status_response = NetworkError (lit ''Failed to fetch''),
      results_response = NetworkError (lit ''Failed to fetch''),
      logs_response = NetworkError (lit ''Failed to fetch'')\<rparr>"

definition env_second :: env where
  "env_second =
     \<lparr>analyze_response = Response 200 json_type (Json \<lparr>job_id = Some (lit ''def456'')\<rparr>),
      status_response = NetworkError (lit ''Failed to fetch''),
      results_response = NetworkError (lit ''Failed to fetch''),
      logs_response = NetworkError (lit ''Failed to fetch'')\<rparr>"

definition page_typed :: state where
  "page_typed = page0\<lparr>urlInput_value := lit ''https://example.com''\<rparr>"

definition page1 :: state where
  "page1 = handleFormSubmit (analyze_response (env_processing 10)) page_typed"

text \<open>
  The same as runs of the transition system. \<open>conf1\<close> is the first submission, answered
  at once; its page is \<open>page1\<close>. In \<open>conf_resubmitted\<close> the Status Poller of the first
  job has fired and its request is still in flight when the user submits a second URL,
  which succeeds with job \<open>def456\<close>. In \<open>conf_two_ticks\<close> the Status Poller has fired
  twice and both requests are in flight. \<open>conf_logs_tick\<close> is one tick of the Log
  Stream Poller with both of its requests answered for a completed job.
\<close>

definition conf1 :: config where
  "conf1 =
     run [(TypeUrl (lit ''https://example.com''), env_down),
          (SubmitForm, env_down),
          (Resume 0, env_processing 10)] (page0, [])"

definition conf_resubmitted :: config where
  "conf_resubmitted =
     run [(TimerFires 1, env_down),
          (TypeUrl (lit ''https://example.org''), env_down),
          (SubmitForm, env_down),
          (Resume 2, env_second)] conf1"

definition conf_two_ticks :: config where
  "conf_two_ticks = run [(TimerFires 1, env_down), (TimerFires 1, env_down)] conf1"


section \<open>Facts about strings\<close>

lemma trim_Nil_iff: "trim v = [] \<longleftrightarrow> (\<forall>c \<in> set v. isWhiteSpace c)"
proof -
  have "trim v = [] \<longleftrightarrow> (\<forall>c \<in> set (dropWhile isWhiteSpace v). isWhiteSpace c)"
    by (simp add: trim_def dropWhile_eq_Nil_conv)
  also have "\<dots> \<longleftrightarrow> dropWhile isWhiteSpace v = []"
    by (metis dropWhile_eq_Nil_conv hd_dropWhile list.set_sel(1) empty_iff list.set(1))
  also have "\<dots> \<longleftrightarrow> (\<forall>c \<in> set v. isWhiteSpace c)"
    by (simp add: dropWhile_eq_Nil_conv)
  finally show ?thesis .
qed

lemma lit_eq_Nil [simp]: "lit cs = [] \<longleftrightarrow> cs = []"
  by (simp add: lit_def)

lemma includes_str_iff: "includes_str s t \<longleftrightarrow> (\<exists>p q. s = p @ t @ q)"
proof (induction s)
  case Nil
  then show ?case by auto
next
  case (Cons c cs)
  show ?case
  proof
    assume "includes_str (c # cs) t"
    then consider "prefix t (c # cs)" | "includes_str cs t" by auto
    then show "\<exists>p q. c # cs = p @ t @ q"
    proof cases
      case 1
      then obtain q where "c # cs = t @ q" by (auto simp: prefix_def)
      then have "c # cs = [] @ t @ q" by simp
      then show ?thesis by blast
    next
      case 2
      with Cons obtain p q where "cs = p @ t @ q" by blast
      then have "c # cs = (c # p) @ t @ q" by simp
      then show ?thesis by blast
    qed
  next
    assume "\<exists>p q. c # cs = p @ t @ q"
    then obtain p q where pq: "c # cs = p @ t @ q" by blast
    show "includes_str (c # cs) t"
    proof (cases p)
      case Nil
      with pq have "prefix t (c # cs)" by (simp add: prefix_def)
      then show ?thesis by simp
    next
      case (Cons a p')
      with pq have "cs = p' @ t @ q" by simp
      with Cons.IH show ?thesis by auto
    qed
  qed
qed

section \<open>The invariant of the timer table\<close>

lemma timers_okI:
  assumes "\<And>h. sp = Some h \<Longrightarrow> \<exists>j. (h, StatusPoll j) \<in> set iv"
    and "\<And>h j. (h, StatusPoll j) \<in> set iv \<Longrightarrow> sp = Some h"
    and "\<And>h. lp = Some h \<Longrightarrow> \<exists>j. (h, LogsPoll j) \<in> set iv"
    and "\<And>h j. (h, LogsPoll j) \<in> set iv \<Longrightarrow> lp = Some h"
    and "\<And>t. t \<in> set iv \<Longrightarrow> 0 < fst t \<and> fst t < n"
    and "distinct (map fst iv)"
    and "0 < n"
  shows "timers_ok sp lp iv n"
  unfolding timers_ok_def using assms by blast

lemma timers_ok_status_in: "timers_ok sp lp iv n \<Longrightarrow> sp = Some h \<Longrightarrow> \<exists>j. (h, StatusPoll j) \<in> set iv"
  unfolding timers_ok_def by blast

lemma timers_ok_status_global: "timers_ok sp lp iv n \<Longrightarrow> (h, StatusPoll j) \<in> set iv \<Longrightarrow> sp = Some h"
  unfolding timers_ok_def by blast

lemma timers_ok_logs_in: "timers_ok sp lp iv n \<Longrightarrow> lp = Some h \<Longrightarrow> \<exists>j. (h, LogsPoll j) \<in> set iv"
  unfolding timers_ok_def by blast

lemma timers_ok_logs_global: "timers_ok sp lp iv n \<Longrightarrow> (h, LogsPoll j) \<in> set iv \<Longrightarrow> lp = Some h"
  unfolding timers_ok_def by blast

lemma timers_ok_bounds: "timers_ok sp lp iv n \<Longrightarrow> t \<in> set iv \<Longrightarrow> 0 < fst t \<and> fst t < n"
  unfolding timers_ok_def by blast

lemma timers_ok_distinct: "timers_ok sp lp iv n \<Longrightarrow> distinct (map fst iv)"
  unfolding timers_ok_def by blast

lemma timers_ok_next: "timers_ok sp lp iv n \<Longrightarrow> 0 < n"
  unfolding timers_ok_def by blast

lemma timers_ok_kinds_differ:
  assumes ok: "timers_ok sp lp iv n"
    and s: "(h, StatusPoll j) \<in> set iv" and l: "(h', LogsPoll j') \<in> set iv"
  shows "h \<noteq> h'"
proof
  assume "h = h'"
  with s l have "StatusPoll j = LogsPoll j'"
    using eq_key_imp_eq_value[OF timers_ok_distinct[OF ok]] by blast
  then show False by simp
qed

lemma timers_ok_clear_status:
  assumes ok: "timers_ok (Some h0) lp iv n"
  shows "timers_ok None lp (filter (\<lambda>t. fst t \<noteq> h0) iv) n"
proof (rule timers_okI)
  fix h assume "(None :: nat option) = Some h"
  then show "\<exists>j. (h, StatusPoll j) \<in> set (filter (\<lambda>t. fst t \<noteq> h0) iv)" by simp
next
  fix h j assume "(h, StatusPoll j) \<in> set (filter (\<lambda>t. fst t \<noteq> h0) iv)"
  then have "(h, StatusPoll j) \<in> set iv" and "h \<noteq> h0" by simp_all
  with timers_ok_status_global[OF ok] show "None = Some h" by blast
next
  fix h assume "lp = Some h"
  with timers_ok_logs_in[OF ok] obtain j where j: "(h, LogsPoll j) \<in> set iv" by blast
  from timers_ok_status_in[OF ok] obtain j0 where "(h0, StatusPoll j0) \<in> set iv" by blast
  from timers_ok_kinds_differ[OF ok this j] have "h \<noteq> h0" by simp
  with j have "(h, LogsPoll j) \<in> set (filter (\<lambda>t. fst t \<noteq> h0) iv)" by simp
  then show "\<exists>j. (h, LogsPoll j) \<in> set (filter (\<lambda>t. fst t \<noteq> h0) iv)" ..
next
  fix h j assume "(h, LogsPoll j) \<in> set (filter (\<lambda>t. fst t \<noteq> h0) iv)"
  then have "(h, LogsPoll j) \<in> set iv" by simp
  with timers_ok_logs_global[OF ok] show "lp = Some h" by blast
next
  fix t assume "t \<in> set (filter (\<lambda>t. fst t \<noteq> h0) iv)"
  then have "t \<in> set iv" by simp
  with timers_ok_bounds[OF ok] show "0 < fst t \<and> fst t < n" by blast
next
  show "distinct (map fst (filter (\<lambda>t. fst t \<noteq> h0) iv))"
    using timers_ok_distinct[OF ok] by (simp add: distinct_map_filter)
next
  show "0 < n" by (rule timers_ok_next[OF ok])
qed

lemma timers_ok_clear_logs:
  assumes ok: "timers_ok sp (Some h0) iv n"
  shows "timers_ok sp None (filter (\<lambda>t. fst t \<noteq> h0) iv) n"
proof (rule timers_okI)
  fix h assume "(None :: nat option) = Some h"
  then show "\<exists>j. (h, LogsPoll j) \<in> set (filter (\<lambda>t. fst t \<noteq> h0) iv)" by simp
next
  fix h j assume "(h, LogsPoll j) \<in> set (filter (\<lambda>t. fst t \<noteq> h0) iv)"
  then have "(h, LogsPoll j) \<in> set iv" and "h \<noteq> h0" by simp_all
  with timers_ok_logs_global[OF ok] show "None = Some h" by blast
next
  fix h assume "sp = Some h"
  with timers_ok_status_in[OF ok] obtain j where j: "(h, StatusPoll j) \<in> set iv" by blast
  from timers_ok_logs_in[OF ok] obtain j0 where "(h0, LogsPoll j0) \<in> set iv" by blast
  from timers_ok_kinds_differ[OF ok j this] have "h \<noteq> h0" by simp
  with j have "(h, StatusPoll j) \<in> set (filter (\<lambda>t. fst t \<noteq> h0) iv)" by simp
  then show "\<exists>j. (h, StatusPoll j) \<in> set (filter (\<lambda>t. fst t \<noteq> h0) iv)" ..
next
  fix h j assume "(h, StatusPoll j) \<in> set (filter (\<lambda>t. fst t \<noteq> h0) iv)"
  then have "(h, StatusPoll j) \<in> set iv" by simp
  with timers_ok_status_global[OF ok] show "sp = Some h" by blast
next
  fix t assume "t \<in> set (filter (\<lambda>t. fst t \<noteq> h0) iv)"
  then have "t \<in> set iv" by simp
  with timers_ok_bounds[OF ok] show "0 < fst t \<and> fst t < n" by blast
next
  show "distinct (map fst (filter (\<lambda>t. fst t \<noteq> h0) iv))"
    using timers_ok_distinct[OF ok] by (simp add: distinct_map_filter)
next
  show "0 < n" by (rule timers_ok_next[OF ok])
qed

lemma timers_ok_fresh:
  assumes ok: "timers_ok sp lp iv n"
  shows "n \<notin> fst ` set iv"
proof
  assume "n \<in> fst ` set iv"
  then obtain t where "t \<in> set iv" and "fst t = n" by auto
  with timers_ok_bounds[OF ok] show False by fastforce
qed

lemma timers_ok_set_status:
  assumes ok: "timers_ok None lp iv n"
  shows "timers_ok (Some n) lp (iv @ [(n, StatusPoll j)]) (Suc n)"
proof (rule timers_okI)
  fix h assume "Some n = Some h"
  then have "(h, StatusPoll j) \<in> set (iv @ [(n, StatusPoll j)])" by simp
  then show "\<exists>j'. (h, StatusPoll j') \<in> set (iv @ [(n, StatusPoll j)])" ..
next
  fix h j' assume "(h, StatusPoll j') \<in> set (iv @ [(n, StatusPoll j)])"
  then have "(h, StatusPoll j') \<in> set iv \<or> h = n" by auto
  moreover have "(h, StatusPoll j') \<notin> set iv"
    using timers_ok_status_global[OF ok] by fastforce
  ultimately show "Some n = Some h" by simp
next
  fix h assume "lp = Some h"
  with timers_ok_logs_in[OF ok] obtain j' where "(h, LogsPoll j') \<in> set iv" by blast
  then have "(h, LogsPoll j') \<in> set (iv @ [(n, StatusPoll j)])" by simp
  then show "\<exists>j'. (h, LogsPoll j') \<in> set (iv @ [(n, StatusPoll j)])" ..
next
  fix h j' assume "(h, LogsPoll j') \<in> set (iv @ [(n, StatusPoll j)])"
  then have "(h, LogsPoll j') \<in> set iv" by simp
  with timers_ok_logs_global[OF ok] show "lp = Some h" by blast
next
  fix t assume "t \<in> set (iv @ [(n, StatusPoll j)])"
  then have "t \<in> set iv \<or> t = (n, StatusPoll j)" by auto
  then show "0 < fst t \<and> fst t < Suc n"
  proof
    assume "t \<in> set iv"
    with timers_ok_bounds[OF ok] have "0 < fst t \<and> fst t < n" by blast
    then show ?thesis by simp
  next
    assume "t = (n, StatusPoll j)"
    with timers_ok_next[OF ok] show ?thesis by simp
  qed
next
  show "distinct (map fst (iv @ [(n, StatusPoll j)]))"
    using timers_ok_distinct[OF ok] timers_ok_fresh[OF ok] by simp
next
  show "0 < Suc n" by simp
qed

lemma timers_ok_set_logs:
  assumes ok: "timers_ok sp None iv n"
  shows "timers_ok sp (Some n) (iv @ [(n, LogsPoll j)]) (Suc n)"
proof (rule timers_okI)
  fix h assume "Some n = Some h"
  then have "(h, LogsPoll j) \<in> set (iv @ [(n, LogsPoll j)])" by simp
  then show "\<exists>j'. (h, LogsPoll j') \<in> set (iv @ [(n, LogsPoll j)])" ..
next
  fix h j' assume "(h, LogsPoll j') \<in> set (iv @ [(n, LogsPoll j)])"
  then have "(h, LogsPoll j') \<in> set iv \<or> h = n" by auto
  moreover have "(h, LogsPoll j') \<notin> set iv"
    using timers_ok_logs_global[OF ok] by fastforce
  ultimately show "Some n = Some h" by simp
next
  fix h assume "sp = Some h"
  with timers_ok_status_in[OF ok] obtain j' where "(h, StatusPoll j') \<in> set iv" by blast
  then have "(h, StatusPoll j') \<in> set (iv @ [(n, LogsPoll j)])" by simp
  then show "\<exists>j'. (h, StatusPoll j') \<in> set (iv @ [(n, LogsPoll j)])" ..
next
  fix h j' assume "(h, StatusPoll j') \<in> set (iv @ [(n, LogsPoll j)])"
  then have "(h, StatusPoll j') \<in> set iv" by simp
  with timers_ok_status_global[OF ok] show "sp = Some h" by blast
next
  fix t assume "t \<in> set (iv @ [(n, LogsPoll j)])"
  then have "t \<in> set iv \<or> t = (n, LogsPoll j)" by auto
  then show "0 < fst t \<and> fst t < Suc n"
  proof
    assume "t \<in> set iv"
    with timers_ok_bounds[OF ok] have "0 < fst t \<and> fst t < n" by blast
    then show ?thesis by simp
  next
    assume "t = (n, LogsPoll j)"
    with timers_ok_next[OF ok] show ?thesis by simp
  qed
next
  show "distinct (map fst (iv @ [(n, LogsPoll j)]))"
    using timers_ok_distinct[OF ok] timers_ok_fresh[OF ok] by simp
next
  show "0 < Suc n" by simp
qed

lemma timers_ok_truthy_status: "timers_ok sp lp iv n \<Longrightarrow> truthy_handle sp \<longleftrightarrow> sp \<noteq> None"
proof (cases sp)
  case None then show ?thesis by simp
next
  case (Some h)
  assume ok: "timers_ok sp lp iv n"
  from timers_ok_status_in[OF ok Some] obtain j where "(h, StatusPoll j) \<in> set iv" by blast
  with timers_ok_bounds[OF ok] have "0 < h" by fastforce
  with Some show ?thesis by simp
qed

lemma timers_ok_truthy_logs: "timers_ok sp lp iv n \<Longrightarrow> truthy_handle lp \<longleftrightarrow> lp \<noteq> None"
proof (cases lp)
  case None then show ?thesis by simp
next
  case (Some h)
  assume ok: "timers_ok sp lp iv n"
  from timers_ok_logs_in[OF ok Some] obtain j where "(h, LogsPoll j) \<in> set iv" by blast
  with timers_ok_bounds[OF ok] have "0 < h" by fastforce
  with Some show ?thesis by simp
qed

lemma timers_ok_empty:
  assumes ok: "timers_ok None None iv n"
  shows "iv = []"
proof (cases iv)
  case Nil then show ?thesis .
next
  case (Cons t ts)
  obtain h cb where "t = (h, cb)" by (cases t)
  with Cons have m: "(h, cb) \<in> set iv" by simp
  show ?thesis
  proof (cases cb)
    case (StatusPoll j)
    with m timers_ok_status_global[OF ok] show ?thesis by fastforce
  next
    case (LogsPoll j)
    with m timers_ok_logs_global[OF ok] show ?thesis by fastforce
  qed
qed


section \<open>What each handler does to the timers\<close>

lemma timers_simple [simp]:
  "timers (fetch r s) = timers s"
  "timers (showStatus s) = timers s"
  "timers (hideStatus s) = timers s"
  "timers (showResults s) = timers s"
  "timers (hideResults s) = timers s"
  "timers (showError m s) = timers s"
  "timers (hideError s) = timers s"
  "timers (updateStatusDisplay st s) = timers s"
  "timers (displayResults res s) = timers s"
  "timers (displayLogs ls s) = timers s"
  "timers (loadHistory s) = timers s"
  "timers (handleFormSubmit_catch m s) = timers s"
  by (simp_all add: timers_def fetch_def showStatus_def hideStatus_def showResults_def
      hideResults_def showError_def hideError_def updateStatusDisplay_def Let_def
      displayResults_def displayLogs_def loadHistory_def handleFormSubmit_catch_def
      split: option.splits)

lemma timers_update [simp]:
  "timers (s\<lparr>API_BASE := a1\<rparr>) = timers s"
  "timers (s\<lparr>currentJobId := a2\<rparr>) = timers s"
  "timers (s\<lparr>requests := a3\<rparr>) = timers s"
  "timers (s\<lparr>urlInput_value := a4\<rparr>) = timers s"
  "timers (s\<lparr>submitBtn_disabled := a5\<rparr>) = timers s"
  "timers (s\<lparr>submitBtn_textContent := a6\<rparr>) = timers s"
  "timers (s\<lparr>statusSection_display := a7\<rparr>) = timers s"
  "timers (s\<lparr>resultsSection_display := a8\<rparr>) = timers s"
  "timers (s\<lparr>errorSection_display := a9\<rparr>) = timers s"
  "timers (s\<lparr>error_message_textContent := a10\<rparr>) = timers s"
  "timers (s\<lparr>progressFill_width := a11\<rparr>) = timers s"
  "timers (s\<lparr>progressFill_loading_animation := a12\<rparr>) = timers s"
  "timers (s\<lparr>statusMessage_textContent := a13\<rparr>) = timers s"
  "timers (s\<lparr>statusDetails_textContent := a14\<rparr>) = timers s"
  "timers (s\<lparr>logsSection_display := a15\<rparr>) = timers s"
  "timers (s\<lparr>logs_container_innerHTML := a16\<rparr>) = timers s"
  "timers (s\<lparr>business_summary_innerHTML := a17\<rparr>) = timers s"
  by (simp_all add: timers_def)

lemma timers_loadResults [simp]: "timers (loadResults j r s) = timers s"
  by (simp add: loadResults_def Let_def split: response.splits json.splits option.splits)

lemma timers_viewResults [simp]: "timers (viewResults j r s) = timers s"
  by (simp add: viewResults_def)

lemma pollers_ok_timers: "pollers_ok s \<Longrightarrow> timers s' = timers s \<Longrightarrow> pollers_ok s'"
  unfolding pollers_ok_def timers_def by simp

lemma timers_startStatusPolling:
  "timers (startStatusPolling j s) =
     (Some (nextHandle s), logsPollInterval s,
      (if truthy_handle (statusPollInterval s)
       then filter (\<lambda>t. fst t \<noteq> the (statusPollInterval s)) (intervals s)
       else intervals s) @ [(nextHandle s, StatusPoll j)],
      Suc (nextHandle s))"
  by (cases "statusPollInterval s")
     (simp_all add: timers_def startStatusPolling_def setInterval_def Let_def)

lemma timers_startLogsPolling:
  "timers (startLogsPolling j s) =
     (statusPollInterval s, Some (nextHandle s),
      (if truthy_handle (logsPollInterval s)
       then filter (\<lambda>t. fst t \<noteq> the (logsPollInterval s)) (intervals s)
       else intervals s) @ [(nextHandle s, LogsPoll j)],
      Suc (nextHandle s))"
  by (cases "logsPollInterval s")
     (simp_all add: timers_def startLogsPolling_def setInterval_def Let_def)

lemma timers_stop_logs:
  "timers (stop_logs s) =
     (statusPollInterval s, None,
      (case logsPollInterval s of None \<Rightarrow> intervals s
       | Some l \<Rightarrow> filter (\<lambda>t. fst t \<noteq> l) (intervals s)),
      nextHandle s)"
  by (cases "logsPollInterval s") (simp_all add: timers_def stop_logs_def)


lemma timers_start_cong:
  assumes "timers s' = timers s"
  shows "timers (startLogsPolling j (startStatusPolling j s'))
       = timers (startLogsPolling j (startStatusPolling j s))"
proof -
  from assms have e: "statusPollInterval s' = statusPollInterval s"
    "logsPollInterval s' = logsPollInterval s" "intervals s' = intervals s"
    "nextHandle s' = nextHandle s"
    by (simp_all add: timers_def)
  have "timers (startStatusPolling j s') = timers (startStatusPolling j s)"
    unfolding timers_startStatusPolling e ..
  then have e': "statusPollInterval (startStatusPolling j s') = statusPollInterval (startStatusPolling j s)"
    "logsPollInterval (startStatusPolling j s') = logsPollInterval (startStatusPolling j s)"
    "intervals (startStatusPolling j s') = intervals (startStatusPolling j s)"
    "nextHandle (startStatusPolling j s') = nextHandle (startStatusPolling j s)"
    by (simp_all add: timers_def)
  show ?thesis
    unfolding timers_startLogsPolling e' ..
qed

lemma timers_statusTick:
  "timers (statusTick j resp rr s) =
     (if observes_terminal resp then timers (stop_pollers s) else timers s)"
proof (cases resp)
  case (NetworkError m)
  then show ?thesis by (simp add: statusTick_def observes_terminal_def)
next
  case (Response code ct body)
  show ?thesis
  proof (cases body)
    case (JsonError m)
    with Response show ?thesis by (simp add: statusTick_def observes_terminal_def Let_def)
  next
    case (Json st)
    have fr: "timers (stop_pollers (updateStatusDisplay st (fetch r s))) = timers (stop_pollers s)" for r
      by (cases "statusPollInterval s"; cases "logsPollInterval s")
         (simp_all add: stop_pollers_def timers_def updateStatusDisplay_def fetch_def Let_def)
    have unf: "terminal st \<Longrightarrow> ok code \<Longrightarrow> is_json_content_type ct \<Longrightarrow>
      timers (statusTick j resp rr s)
        = timers (stop_pollers (updateStatusDisplay st
            (fetch (GET (API_BASE s @ lit ''/status/'' @ template_str j)) s)))"
      using Response Json
      by (simp add: statusTick_def stop_pollers_def Let_def)
    show ?thesis
    proof (cases "ok code \<and> is_json_content_type ct \<and> terminal st")
      case True
      with unf fr Response Json show ?thesis by (simp add: observes_terminal_def)
    next
      case False
      with Response Json show ?thesis
        by (auto simp add: statusTick_def observes_terminal_def Let_def)
    qed
  qed
qed



lemma timers_handleFormSubmit_fail:
  "\<not> submission_succeeds r s \<Longrightarrow> timers (handleFormSubmit r s) = timers s"
  by (auto simp add: handleFormSubmit_def submission_succeeds_def Let_def
      split: response.splits json.splits)

lemma timers_handleFormSubmit_ok:
  assumes "submission_succeeds r s"
  shows "\<exists>j. timers (handleFormSubmit r s) = timers (startLogsPolling j (startStatusPolling j s))"
proof -
  from assms obtain code ct d where r: "r = Response code ct (Json d)" and c: "ok code"
    and u: "trim (urlInput_value s) \<noteq> []"
    by (auto simp add: submission_succeeds_def split: response.splits json.splits)
  define s5 where "s5 = (fetch (POST (API_BASE s @ lit ''/analyze'') (trim (urlInput_value s)))
      (updateStatusDisplay \<lparr>status = Some (lit ''processing''), progress = Some 0,
                    message = Some (lit ''Submitting analysis request...'')\<rparr>
        (showStatus (hideResults (hideError
           (s\<lparr>submitBtn_disabled := True, submitBtn_textContent := lit ''Submitting...''\<rparr>))))))
      \<lparr>currentJobId := job_id d\<rparr>"
  have t5: "timers s5 = timers s"
  proof -
    show ?thesis unfolding s5_def by simp
  qed
  have "handleFormSubmit r s =
    loadHistory ((startLogsPolling (job_id d) (startStatusPolling (job_id d) s5))
       \<lparr>urlInput_value := [], submitBtn_disabled := False,
         submitBtn_textContent := lit ''Analyze Website''\<rparr>)"
    using r c u by (simp add: handleFormSubmit_def Let_def s5_def)
  then have "timers (handleFormSubmit r s) = timers (startLogsPolling (job_id d) (startStatusPolling (job_id d) s5))"
    by simp
  with timers_start_cong[OF t5, of "job_id d"] show ?thesis
    by (intro exI[of _ "job_id d"]) simp
qed


section \<open>The invariant holds in every reachable state\<close>

lemma pollers_ok_startStatusPolling:
  assumes "pollers_ok s"
  shows "pollers_ok (startStatusPolling j s)"
proof -
  from assms have ok: "timers_ok (statusPollInterval s) (logsPollInterval s) (intervals s) (nextHandle s)"
    by (simp add: pollers_ok_def)
  have "timers_ok (Some (nextHandle s)) (logsPollInterval s)
         ((if truthy_handle (statusPollInterval s)
           then filter (\<lambda>t. fst t \<noteq> the (statusPollInterval s)) (intervals s)
           else intervals s) @ [(nextHandle s, StatusPoll j)]) (Suc (nextHandle s))"
  proof (cases "statusPollInterval s")
    case None
    with ok timers_ok_set_status[of "logsPollInterval s" "intervals s" "nextHandle s" j]
    show ?thesis by simp
  next
    case (Some h)
    then have "truthy_handle (statusPollInterval s)"
      using timers_ok_truthy_status[OF ok] by simp
    moreover from ok Some have "timers_ok None (logsPollInterval s)
        (filter (\<lambda>t. fst t \<noteq> h) (intervals s)) (nextHandle s)"
      using timers_ok_clear_status by simp
    ultimately show ?thesis using Some timers_ok_set_status by simp
  qed
  then show ?thesis
    using timers_startStatusPolling[of j s] by (simp add: pollers_ok_def timers_def)
qed

lemma pollers_ok_startLogsPolling:
  assumes "pollers_ok s"
  shows "pollers_ok (startLogsPolling j s)"
proof -
  from assms have ok: "timers_ok (statusPollInterval s) (logsPollInterval s) (intervals s) (nextHandle s)"
    by (simp add: pollers_ok_def)
  have "timers_ok (statusPollInterval s) (Some (nextHandle s))
         ((if truthy_handle (logsPollInterval s)
           then filter (\<lambda>t. fst t \<noteq> the (logsPollInterval s)) (intervals s)
           else intervals s) @ [(nextHandle s, LogsPoll j)]) (Suc (nextHandle s))"
  proof (cases "logsPollInterval s")
    case None
    with ok timers_ok_set_logs[of "statusPollInterval s" "intervals s" "nextHandle s" j]
    show ?thesis by simp
  next
    case (Some h)
    then have "truthy_handle (logsPollInterval s)"
      using timers_ok_truthy_logs[OF ok] by simp
    moreover from ok Some have "timers_ok (statusPollInterval s) None
        (filter (\<lambda>t. fst t \<noteq> h) (intervals s)) (nextHandle s)"
      using timers_ok_clear_logs by simp
    ultimately show ?thesis using Some timers_ok_set_logs by simp
  qed
  then show ?thesis
    using timers_startLogsPolling[of j s] by (simp add: pollers_ok_def timers_def)
qed

lemma pollers_ok_stop_logs:
  assumes "pollers_ok s"
  shows "pollers_ok (stop_logs s)"
proof -
  from assms have ok: "timers_ok (statusPollInterval s) (logsPollInterval s) (intervals s) (nextHandle s)"
    by (simp add: pollers_ok_def)
  show ?thesis
  proof (cases "logsPollInterval s")
    case None
    with ok show ?thesis by (simp add: pollers_ok_def stop_logs_def)
  next
    case (Some l)
    with ok timers_ok_clear_logs[of "statusPollInterval s" l "intervals s" "nextHandle s"]
    show ?thesis by (simp add: pollers_ok_def stop_logs_def)
  qed
qed

lemma timers_stop_pollers:
  assumes "pollers_ok s"
  shows "timers (stop_pollers s) = (None, None, [], nextHandle s)"
proof -
  from assms have ok: "timers_ok (statusPollInterval s) (logsPollInterval s) (intervals s) (nextHandle s)"
    by (simp add: pollers_ok_def)
  define iv1 where "iv1 = (case statusPollInterval s of None \<Rightarrow> intervals s
     | Some h \<Rightarrow> filter (\<lambda>t. fst t \<noteq> h) (intervals s))"
  have ok1: "timers_ok None (logsPollInterval s) iv1 (nextHandle s)"
  proof (cases "statusPollInterval s")
    case None with ok show ?thesis by (simp add: iv1_def)
  next
    case (Some h)
    with ok timers_ok_clear_status[of h "logsPollInterval s" "intervals s" "nextHandle s"]
    show ?thesis by (simp add: iv1_def)
  qed
  define iv2 where "iv2 = (case logsPollInterval s of None \<Rightarrow> iv1
     | Some l \<Rightarrow> filter (\<lambda>t. fst t \<noteq> l) iv1)"
  have ok2: "timers_ok None None iv2 (nextHandle s)"
  proof (cases "logsPollInterval s")
    case None with ok1 show ?thesis by (simp add: iv2_def)
  next
    case (Some l)
    with ok1 timers_ok_clear_logs[of None l iv1 "nextHandle s"]
    show ?thesis by (simp add: iv2_def)
  qed
  have e: "iv2 = []" using ok2 by (rule timers_ok_empty)
  have tr: "truthy_handle (logsPollInterval s) \<longleftrightarrow> logsPollInterval s \<noteq> None"
    using ok by (rule timers_ok_truthy_logs)
  have "timers (stop_pollers s) = (None, None, iv2, nextHandle s)"
    using tr
    by (cases "statusPollInterval s"; cases "logsPollInterval s")
       (simp_all add: stop_pollers_def timers_def iv1_def iv2_def Let_def)
  with e show ?thesis by simp
qed

lemma timers_ok_nothing: "0 < n \<Longrightarrow> timers_ok None None [] n"
  by (simp add: timers_ok_def)

lemma stop_pollers_timers_cong:
  assumes "timers s' = timers s"
  shows "timers (stop_pollers s') = timers (stop_pollers s)"
proof -
  from assms have "statusPollInterval s' = statusPollInterval s"
    "logsPollInterval s' = logsPollInterval s" "intervals s' = intervals s"
    "nextHandle s' = nextHandle s"
    by (simp_all add: timers_def)
  then show ?thesis
    by (cases "statusPollInterval s"; cases "logsPollInterval s")
       (simp_all add: stop_pollers_def timers_def Let_def)
qed

subsection \<open>The handlers are their parts, run without interruption\<close>

lemma response_cases:
  obtains (net) m where "r = NetworkError m"
  | (bad) code ct m where "r = Response code ct (JsonError m)"
  | (json) code ct d where "r = Response code ct (Json d)"
proof (cases r)
  case (NetworkError m)
  then show ?thesis by (rule net)
next
  case (Response code ct body)
  then show ?thesis by (cases body) (auto intro: bad json)
qed

lemma loadResults_parts: "loadResults j r s = loadResults_resume r (loadResults_start j s)"
  by (simp add: loadResults_def loadResults_resume_def loadResults_start_def Let_def)

lemma statusTick_parts:
  "statusTick j r rr s =
     (if snd (statusTick_resume j r (statusTick_start j s)) = []
      then fst (statusTick_resume j r (statusTick_start j s))
      else loadResults_resume rr (fst (statusTick_resume j r (statusTick_start j s))))"
proof (cases r rule: response_cases)
  case (net m)
  then show ?thesis
    by (simp add: statusTick_def statusTick_resume_def statusTick_start_def)
next
  case (bad code ct m)
  then show ?thesis
    by (simp add: statusTick_def statusTick_resume_def statusTick_start_def Let_def)
next
  case (json code ct st)
  define s1 where "s1 = fetch (GET (API_BASE s @ lit ''/status/'' @ template_str j)) s"
  show ?thesis
  proof (cases "ok code \<and> is_json_content_type ct \<and> terminal st")
    case False
    then show ?thesis unfolding json
      by (auto simp add: statusTick_def statusTick_resume_def statusTick_start_def Let_def)
  next
    case True
    then have a: "statusTick j r rr s =
        (if status st = Some (lit ''completed'')
         then loadResults j rr (stop_pollers (updateStatusDisplay st s1))
         else showError (lit ''Analysis failed. Please try again.'')
                (stop_pollers (updateStatusDisplay st s1)))"
      unfolding json by (simp add: statusTick_def stop_pollers_def s1_def Let_def)
    from True have b: "statusTick_resume j r (statusTick_start j s) =
        (if status st = Some (lit ''completed'')
         then (loadResults_start j (stop_pollers (updateStatusDisplay st s1)), [AwaitResults])
         else (showError (lit ''Analysis failed. Please try again.'')
                (stop_pollers (updateStatusDisplay st s1)), []))"
      unfolding json
      by (simp add: statusTick_resume_def statusTick_start_def stop_pollers_def s1_def Let_def)
    show ?thesis unfolding a b by (simp add: loadResults_parts)
  qed
qed



lemma handleFormSubmit_start_blank:
  "trim (urlInput_value s) = [] \<Longrightarrow>
     handleFormSubmit_start s = (showError (lit ''Please enter a valid URL'') s, [])"
  by (simp add: handleFormSubmit_start_def)

lemma handleFormSubmit_start_prepared:
  "trim (urlInput_value s) \<noteq> [] \<Longrightarrow>
     handleFormSubmit_start s = (submit_prepared s, [AwaitAnalyze])"
  by (simp add: handleFormSubmit_start_def submit_prepared_def Let_def)

lemma handleFormSubmit_prepared:
  "trim (urlInput_value s) \<noteq> [] \<Longrightarrow>
     handleFormSubmit r s = fst (handleFormSubmit_resume r (submit_prepared s))"
proof (cases r rule: response_cases)
  case (net m)
  assume "trim (urlInput_value s) \<noteq> []"
  then show ?thesis unfolding net
    by (simp add: handleFormSubmit_def handleFormSubmit_resume_def submit_prepared_def Let_def)
next
  case (bad code ct m)
  assume "trim (urlInput_value s) \<noteq> []"
  then show ?thesis unfolding bad
    by (simp add: handleFormSubmit_def handleFormSubmit_resume_def submit_prepared_def Let_def)
next
  case (json code ct d)
  assume "trim (urlInput_value s) \<noteq> []"
  then show ?thesis unfolding json
    by (simp add: handleFormSubmit_def handleFormSubmit_resume_def submit_prepared_def Let_def)
qed

lemma handleFormSubmit_parts:
  "handleFormSubmit r s =
     (if snd (handleFormSubmit_start s) = [] then fst (handleFormSubmit_start s)
      else fst (handleFormSubmit_resume r (fst (handleFormSubmit_start s))))"
proof (cases "trim (urlInput_value s) = []")
  case True
  then show ?thesis
    by (simp add: handleFormSubmit_start_blank) (simp add: handleFormSubmit_def)
next
  case False
  then show ?thesis
    by (simp add: handleFormSubmit_start_prepared handleFormSubmit_prepared)
qed

subsection \<open>What each part does to the timers\<close>

lemma timers_parts [simp]:
  "timers (statusTick_start j s) = timers s"
  "timers (logsTick_start j s) = timers s"
  "timers (loadResults_start j s) = timers s"
  by (simp_all add: statusTick_start_def logsTick_start_def loadResults_start_def)

lemma timers_submit_prepared [simp]: "timers (submit_prepared s) = timers s"
  by (simp add: submit_prepared_def)

lemma timers_handleFormSubmit_start [simp]: "timers (fst (handleFormSubmit_start s)) = timers s"
  by (cases "trim (urlInput_value s) = []")
     (simp_all add: handleFormSubmit_start_blank handleFormSubmit_start_prepared)

lemma timers_loadResults_resume [simp]: "timers (loadResults_resume r s) = timers s"
  by (simp add: loadResults_resume_def split: response.splits json.splits option.splits)

lemma timers_logsTick_resume [simp]: "timers (fst (logsTick_resume j r s)) = timers s"
  by (simp add: logsTick_resume_def Let_def split: response.splits json.splits)

lemma timers_statusTick_resume:
  "timers (fst (statusTick_resume j r s)) =
     (if observes_terminal r then timers (stop_pollers s) else timers s)"
proof (cases "observes_terminal r")
  case False
  then show ?thesis
    by (auto simp add: statusTick_resume_def observes_terminal_def Let_def
        split: response.splits json.splits)
next
  case True
  then obtain code ct st where r: "r = Response code ct (Json st)"
    and c: "ok code" "is_json_content_type ct" "terminal st"
    by (auto simp add: observes_terminal_def split: response.splits json.splits)
  have "timers (fst (statusTick_resume j r s)) = timers (stop_pollers (updateStatusDisplay st s))"
    using r c by (simp add: statusTick_resume_def stop_pollers_def Let_def)
  also have "\<dots> = timers (stop_pollers s)"
    by (rule stop_pollers_timers_cong) simp
  finally show ?thesis using True by simp
qed

lemma timers_logsTick_resume_status:
  "timers (logsTick_resume_status sr s) =
     (if status_says_done sr then timers (stop_logs s) else timers s)"
  by (auto simp add: logsTick_resume_status_def status_says_done_def stop_logs_def
      split: response.splits json.splits)

lemma timers_handleFormSubmit_resume_fail:
  "\<not> analyze_decoded r \<Longrightarrow> timers (fst (handleFormSubmit_resume r s)) = timers s"
  by (auto simp add: handleFormSubmit_resume_def analyze_decoded_def
      split: response.splits json.splits)

lemma timers_handleFormSubmit_resume_ok:
  assumes "analyze_decoded r"
  shows "\<exists>j. timers (fst (handleFormSubmit_resume r s))
           = timers (startLogsPolling j (startStatusPolling j s))"
proof -
  from assms obtain code ct d where r: "r = Response code ct (Json d)" and c: "ok code"
    by (auto simp add: analyze_decoded_def split: response.splits json.splits)
  have t5: "timers (s\<lparr>currentJobId := job_id d\<rparr>) = timers s" by simp
  have "timers (fst (handleFormSubmit_resume r s))
      = timers (startLogsPolling (job_id d) (startStatusPolling (job_id d)
          (s\<lparr>currentJobId := job_id d\<rparr>)))"
    using r c by (simp add: handleFormSubmit_resume_def Let_def)
  with timers_start_cong[OF t5, of "job_id d"] show ?thesis
    by (intro exI[of _ "job_id d"]) simp
qed

subsection \<open>Every event keeps the invariant\<close>

lemma pollers_ok_stop_pollers:
  assumes "pollers_ok s"
  shows "pollers_ok (stop_pollers s)"
proof -
  have "0 < nextHandle s"
    using assms by (simp add: pollers_ok_def timers_ok_def)
  with timers_stop_pollers[OF assms] show ?thesis
    by (simp add: pollers_ok_def timers_def timers_ok_nothing)
qed

lemma pollers_ok_resume:
  assumes "pollers_ok s"
  shows "pollers_ok (fst (resume p e s))"
proof (cases p)
  case AwaitAnalyze
  show ?thesis
  proof (cases "analyze_decoded (analyze_response e)")
    case True
    from timers_handleFormSubmit_resume_ok[OF True] obtain j where
      t: "timers (fst (handleFormSubmit_resume (analyze_response e) s))
            = timers (startLogsPolling j (startStatusPolling j s))"
      by blast
    have "pollers_ok (startLogsPolling j (startStatusPolling j s))"
      using assms by (intro pollers_ok_startLogsPolling pollers_ok_startStatusPolling)
    from this t show ?thesis unfolding AwaitAnalyze resume.simps by (rule pollers_ok_timers)
  next
    case False
    from assms timers_handleFormSubmit_resume_fail[OF False]
    show ?thesis unfolding AwaitAnalyze resume.simps by (rule pollers_ok_timers)
  qed
next
  case (AwaitStatus j)
  show ?thesis
  proof (cases "observes_terminal (status_response e)")
    case True
    then have "timers (fst (statusTick_resume j (status_response e) s)) = timers (stop_pollers s)"
      by (simp add: timers_statusTick_resume)
    with pollers_ok_stop_pollers[OF assms] show ?thesis
      unfolding AwaitStatus resume.simps by (rule pollers_ok_timers)
  next
    case False
    then have "timers (fst (statusTick_resume j (status_response e) s)) = timers s"
      by (simp add: timers_statusTick_resume)
    with assms show ?thesis unfolding AwaitStatus resume.simps by (rule pollers_ok_timers)
  qed
next
  case AwaitResults
  have "timers (fst (resume p e s)) = timers s" using AwaitResults by simp
  with assms show ?thesis by (rule pollers_ok_timers)
next
  case (AwaitLogs j)
  have "timers (fst (resume p e s)) = timers s" using AwaitLogs by simp
  with assms show ?thesis by (rule pollers_ok_timers)
next
  case AwaitLogsStatus
  show ?thesis
  proof (cases "status_says_done (status_response e)")
    case True
    then have "timers (fst (resume p e s)) = timers (stop_logs s)"
      using AwaitLogsStatus by (simp add: timers_logsTick_resume_status)
    with pollers_ok_stop_logs[OF assms] show ?thesis by (rule pollers_ok_timers)
  next
    case False
    then have "timers (fst (resume p e s)) = timers s"
      using AwaitLogsStatus by (simp add: timers_logsTick_resume_status)
    with assms show ?thesis by (rule pollers_ok_timers)
  qed
next
  case AwaitHistory
  with assms show ?thesis by simp
qed

lemma timers_step_other:
  assumes "\<And>k. ev \<noteq> Resume k"
  shows "timers (fst (step ev e c)) = timers (fst c)"
proof -
  obtain s ps where c: "c = (s, ps)" by (cases c)
  show ?thesis
  proof (cases ev)
    case (TimerFires h)
    then show ?thesis unfolding c
      by (simp split: option.splits callback.splits)
  next
    case (Resume k)
    with assms[of k] show ?thesis by simp
  qed (simp_all add: c)
qed

lemma step_Resume:
  assumes "k < length (snd c)"
  shows "fst (step (Resume k) e c) = fst (resume (snd c ! k) e (fst c))"
    and "snd (step (Resume k) e c)
           = take k (snd c) @ drop (Suc k) (snd c) @ snd (resume (snd c ! k) e (fst c))"
  using assms by (cases c; simp)+

lemma step_Resume_beyond:
  "\<not> k < length (snd c) \<Longrightarrow> step (Resume k) e c = c"
  by (cases c) simp

lemma pollers_ok_step:
  assumes "pollers_ok (fst c)"
  shows "pollers_ok (fst (step ev e c))"
proof (cases "\<exists>k. ev = Resume k")
  case False
  then have "timers (fst (step ev e c)) = timers (fst c)"
    by (intro timers_step_other) blast
  with assms show ?thesis by (rule pollers_ok_timers)
next
  case True
  then obtain k where k: "ev = Resume k" by blast
  show ?thesis
  proof (cases "k < length (snd c)")
    case True
    from pollers_ok_resume[OF assms] show ?thesis
      unfolding k step_Resume(1)[OF True] .
  next
    case False
    with assms show ?thesis unfolding k by (simp add: step_Resume_beyond)
  qed
qed

lemma reachable_pollers_ok: "reachable c \<Longrightarrow> pollers_ok (fst c)"
proof (induction rule: reachable.induct)
  case (reachable_initial s)
  then show ?case by (simp add: initial_def pollers_ok_def timers_ok_def)
next
  case (reachable_step c ev e)
  from reachable_step.IH show ?case by (rule pollers_ok_step)
qed


section \<open>Facts about the concrete page\<close>

lemma trim_example: "trim (lit ''https://example.com'') = lit ''https://example.com''"
  by (simp add: lit_def trim_def isWhiteSpace_def)

lemma page_typed_eq: "page_typed = page0\<lparr>urlInput_value := lit ''https://example.com''\<rparr>"
  by (rule page_typed_def)

lemma page1_eq: "page1 =
  \<lparr>API_BASE = lit ''/api'', currentJobId = Some (lit ''abc123''), statusPollInterval = Some 1,
      logsPollInterval = Some 2,
      intervals = [(1, StatusPoll (Some (lit ''abc123''))), (2, LogsPoll (Some (lit ''abc123'')))],
      nextHandle = 3,
      requests = [POST (lit ''/api/analyze'') (lit ''https://example.com''),
                  GET (lit ''/api/history?limit=20'')],
      urlInput_value = [], submitBtn_disabled = False,
      submitBtn_textContent = lit ''Analyze Website'', statusSection_display = lit ''block'',
      resultsSection_display = lit ''none'', errorSection_display = lit ''none'',
      error_message_textContent = [], progressFill_width = lit ''100%'',
      progressFill_loading_animation = True,
      statusMessage_textContent = lit ''Submitting analysis request...'',
      statusDetails_textContent = lit ''Processing...'', logsSection_display = Some (lit ''block''),
      logs_container_innerHTML = Some [], business_summary_innerHTML = []\<rparr>"
  unfolding page1_def page_typed_eq page0_def env_processing_def
  by (simp add: handleFormSubmit_def trim_example Let_def ok_def startStatusPolling_def
      startLogsPolling_def setInterval_def loadHistory_def fetch_def updateStatusDisplay_def
      showStatus_def hideResults_def hideError_def)
     (simp add: lit_def)

lemma env_facts:
  "observes_terminal (status_response env_failed)"
  "observes_terminal (status_response env_completed)"
  "transient_error (status_response env_down)"
  "logs_decoded (logs_response env_completed)"
  "status_says_done (status_response env_completed)"
  "\<not> logs_decoded (logs_response env_down)"
  by (simp_all add: observes_terminal_def transient_error_def logs_decoded_def
      status_says_done_def env_failed_def env_completed_def env_down_def ok_def json_type_def
      is_json_content_type_def terminal_def)
     (simp_all add: lit_def)

lemma page1_pollers:
  "map_of (intervals page1) 1 = Some (StatusPoll (Some (lit ''abc123'')))"
  "map_of (intervals page1) 2 = Some (LogsPoll (Some (lit ''abc123'')))"
  "logsPollInterval page1 = Some 2"
  "statusPollInterval page1 = Some 1"
  by (simp_all add: page1_eq)

subsection \<open>The remainders of the two ticks and of the submission\<close>

lemma statusTick_resume_transient:
  "transient_error r \<Longrightarrow> statusTick_resume j r s = (s, [])"
  by (auto simp add: transient_error_def statusTick_resume_def split: response.splits json.splits)



lemma handleFormSubmit_resume_pending:
  "snd (handleFormSubmit_resume r s) = (if analyze_decoded r then [AwaitHistory] else [])"
  by (cases r rule: response_cases)
     (simp_all add: handleFormSubmit_resume_def analyze_decoded_def Let_def)

lemma analyze_facts:
  "analyze_decoded (analyze_response (env_processing p))"
  "analyze_decoded (analyze_response env_second)"
  "\<not> analyze_decoded (analyze_response env_down)"
  by (simp_all add: analyze_decoded_def env_processing_def env_second_def env_down_def ok_def)

subsection \<open>The concrete runs\<close>

lemma run_Nil: "run [] c = c"
  by (simp add: run_def)

lemma run_Cons: "run ((ev, e) # evs) c = run evs (step ev e c)"
  by (simp add: run_def)

lemma reachable_run: "reachable c \<Longrightarrow> reachable (run evs c)"
proof (induction evs arbitrary: c)
  case Nil
  then show ?case by (simp add: run_def)
next
  case (Cons p evs)
  from Cons.prems have "reachable (step (fst p) (snd p) c)" by (rule reachable_step)
  from Cons.IH[OF this] show ?case by (simp add: run_def)
qed

lemma reachable_page0: "reachable (page0, [])"
proof -
  have "initial page0" by (simp add: initial_def page0_def)
  then show ?thesis by (rule reachable_initial)
qed

lemma page_typed_trim: "trim (urlInput_value page_typed) \<noteq> []"
  by (simp add: page_typed_eq trim_example)

lemma conf1_eq: "conf1 = (page1, [AwaitHistory])"
proof -
  have a: "step (TypeUrl (lit ''https://example.com'')) env_down (page0, []) = (page_typed, [])"
    by (simp add: page_typed_def)
  have b: "step SubmitForm env_down (page_typed, []) = (submit_prepared page_typed, [AwaitAnalyze])"
    by (simp add: handleFormSubmit_start_prepared[OF page_typed_trim])
  have c: "step (Resume 0) (env_processing 10) (submit_prepared page_typed, [AwaitAnalyze])
      = (page1, [AwaitHistory])"
    by (simp add: handleFormSubmit_resume_pending analyze_facts page1_def
        handleFormSubmit_prepared[OF page_typed_trim])
  show ?thesis unfolding conf1_def run_Cons run_Nil a b c ..
qed

lemma reachable_conf1: "reachable conf1"
  unfolding conf1_def using reachable_page0 by (rule reachable_run)

lemma status_url: "lit ''/api'' @ lit ''/status/'' @ lit ''abc123'' = lit ''/api/status/abc123''"
  by (simp add: lit_def)

lemma page1_tick:
  assumes "API_BASE s = lit ''/api''"
    and "map_of (intervals s) 1 = Some (StatusPoll (Some (lit ''abc123'')))"
  shows "step (TimerFires 1) e (s, ps)
     = (s\<lparr>requests := requests s @ [GET (lit ''/api/status/abc123'')]\<rparr>,
        ps @ [AwaitStatus (Some (lit ''abc123''))])"
  using assms by (simp add: statusTick_start_def fetch_def status_url)

lemma conf_two_ticks_eq:
  "conf_two_ticks =
     (page1\<lparr>requests := requests page1 @ [GET (lit ''/api/status/abc123''),
                                           GET (lit ''/api/status/abc123'')]\<rparr>,
      [AwaitHistory, AwaitStatus (Some (lit ''abc123'')), AwaitStatus (Some (lit ''abc123''))])"
proof -
  have b: "API_BASE page1 = lit ''/api''" by (simp add: page1_eq)
  have a1: "step (TimerFires 1) env_down (page1, [AwaitHistory])
     = (page1\<lparr>requests := requests page1 @ [GET (lit ''/api/status/abc123'')]\<rparr>,
        [AwaitHistory, AwaitStatus (Some (lit ''abc123''))])"
    using page1_tick[OF b page1_pollers(1)] by simp
  have a2: "step (TimerFires 1) env_down
        (page1\<lparr>requests := requests page1 @ [GET (lit ''/api/status/abc123'')]\<rparr>,
         [AwaitHistory, AwaitStatus (Some (lit ''abc123''))])
     = (page1\<lparr>requests := requests page1 @ [GET (lit ''/api/status/abc123''),
                                           GET (lit ''/api/status/abc123'')]\<rparr>,
        [AwaitHistory, AwaitStatus (Some (lit ''abc123'')), AwaitStatus (Some (lit ''abc123''))])"
  proof -
    have x: "API_BASE (page1\<lparr>requests := requests page1 @ [GET (lit ''/api/status/abc123'')]\<rparr>)
        = lit ''/api''"
      using b by simp
    have y: "map_of (intervals
          (page1\<lparr>requests := requests page1 @ [GET (lit ''/api/status/abc123'')]\<rparr>)) 1
        = Some (StatusPoll (Some (lit ''abc123'')))"
      using page1_pollers(1) by simp
    from page1_tick[OF x y] show ?thesis by simp
  qed
  show ?thesis unfolding conf_two_ticks_def run_Cons run_Nil conf1_eq a1 a2 ..
qed

lemma reachable_conf_two_ticks: "reachable conf_two_ticks"
  unfolding conf_two_ticks_def using reachable_conf1 by (rule reachable_run)

lemma conf_two_ticks_pollers:
  "map_of (intervals (fst conf_two_ticks)) 1 = Some (StatusPoll (Some (lit ''abc123'')))"
  "snd conf_two_ticks ! 1 = AwaitStatus (Some (lit ''abc123''))"
  "snd conf_two_ticks ! 2 = AwaitStatus (Some (lit ''abc123''))"
  "length (snd conf_two_ticks) = 3"
  "intervals (fst conf_two_ticks) = intervals page1"
  by (simp_all add: conf_two_ticks_eq page1_eq)

lemma example_org_trim: "trim (lit ''https://example.org'') = lit ''https://example.org''"
  by (simp add: lit_def trim_def isWhiteSpace_def)

lemma conf_resubmitted_eq:
  "conf_resubmitted =
     (\<lparr>API_BASE = lit ''/api'', currentJobId = Some (lit ''def456''), statusPollInterval = Some 3,
       logsPollInterval = Some 4,
       intervals = [(3, StatusPoll (Some (lit ''def456''))), (4, LogsPoll (Some (lit ''def456'')))],
       nextHandle = 5,
       requests = [POST (lit ''/api/analyze'') (lit ''https://example.com''),
                   GET (lit ''/api/history?limit=20''),
                   GET (lit ''/api/status/abc123''),
                   POST (lit ''/api/analyze'') (lit ''https://example.org''),
                   GET (lit ''/api/history?limit=20'')],
       urlInput_value = [], submitBtn_disabled = False,
       submitBtn_textContent = lit ''Analyze Website'', statusSection_display = lit ''block'',
       resultsSection_display = lit ''none'', errorSection_display = lit ''none'',
       error_message_textContent = [], progressFill_width = lit ''100%'',
       progressFill_loading_animation = True,
       statusMessage_textContent = lit ''Submitting analysis request...'',
       statusDetails_textContent = lit ''Processing...'', logsSection_display = Some (lit ''block''),
       logs_container_innerHTML = Some [], business_summary_innerHTML = []\<rparr>,
      [AwaitHistory, AwaitStatus (Some (lit ''abc123'')), AwaitHistory])"
proof -
  define s1 where "s1 = page1\<lparr>requests := requests page1 @ [GET (lit ''/api/status/abc123'')]\<rparr>"
  define s2 where "s2 = s1\<lparr>urlInput_value := lit ''https://example.org''\<rparr>"
  have a: "step (TimerFires 1) env_down (page1, [AwaitHistory])
      = (s1, [AwaitHistory, AwaitStatus (Some (lit ''abc123''))])"
  proof -
    have x: "API_BASE page1 = lit ''/api''" by (simp add: page1_eq)
    from page1_tick[OF x page1_pollers(1)] show ?thesis by (simp add: s1_def)
  qed
  have b: "step (TypeUrl (lit ''https://example.org'')) env_down
        (s1, [AwaitHistory, AwaitStatus (Some (lit ''abc123''))])
      = (s2, [AwaitHistory, AwaitStatus (Some (lit ''abc123''))])"
    by (simp add: s2_def)
  have t: "trim (urlInput_value s2) \<noteq> []"
    by (simp add: s2_def example_org_trim)
  have c: "step SubmitForm env_down (s2, [AwaitHistory, AwaitStatus (Some (lit ''abc123''))])
      = (submit_prepared s2, [AwaitHistory, AwaitStatus (Some (lit ''abc123'')), AwaitAnalyze])"
    by (simp add: handleFormSubmit_start_prepared[OF t])
  have d: "step (Resume 2) env_second
        (submit_prepared s2, [AwaitHistory, AwaitStatus (Some (lit ''abc123'')), AwaitAnalyze])
      = (fst (handleFormSubmit_resume (analyze_response env_second) (submit_prepared s2)),
         [AwaitHistory, AwaitStatus (Some (lit ''abc123'')), AwaitHistory])"
    by (simp add: handleFormSubmit_resume_pending analyze_facts)
  have f: "fst (handleFormSubmit_resume (analyze_response env_second) (submit_prepared s2))
      = \<lparr>API_BASE = lit ''/api'', currentJobId = Some (lit ''def456''), statusPollInterval = Some 3,
       logsPollInterval = Some 4,
       intervals = [(3, StatusPoll (Some (lit ''def456''))), (4, LogsPoll (Some (lit ''def456'')))],
       nextHandle = 5,
       requests = [POST (lit ''/api/analyze'') (lit ''https://example.com''),
                   GET (lit ''/api/history?limit=20''),
                   GET (lit ''/api/status/abc123''),
                   POST (lit ''/api/analyze'') (lit ''https://example.org''),
                   GET (lit ''/api/history?limit=20'')],
       urlInput_value = [], submitBtn_disabled = False,
       submitBtn_textContent = lit ''Analyze Website'', statusSection_display = lit ''block'',
       resultsSection_display = lit ''none'', errorSection_display = lit ''none'',
       error_message_textContent = [], progressFill_width = lit ''100%'',
       progressFill_loading_animation = True,
       statusMessage_textContent = lit ''Submitting analysis request...'',
       statusDetails_textContent = lit ''Processing...'', logsSection_display = Some (lit ''block''),
       logs_container_innerHTML = Some [], business_summary_innerHTML = []\<rparr>"
    unfolding s2_def s1_def page1_eq submit_prepared_def env_second_def
    by (simp add: handleFormSubmit_resume_def example_org_trim Let_def ok_def
        startStatusPolling_def startLogsPolling_def setInterval_def loadHistory_def fetch_def
        updateStatusDisplay_def showStatus_def hideResults_def hideError_def)
       (simp add: lit_def)
  show ?thesis unfolding conf_resubmitted_def run_Cons run_Nil conf1_eq a b c d f ..
qed

lemma reachable_conf_resubmitted: "reachable conf_resubmitted"
  unfolding conf_resubmitted_def using reachable_conf1 by (rule reachable_run)



section \<open>Requests issued by the handlers\<close>

lemma loadResults_requests:
  "requests (loadResults j r s) = requests s @ [GET (API_BASE s @ lit ''/results/'' @ template_str j)]"
  by (simp add: loadResults_def Let_def fetch_def showError_def showResults_def hideStatus_def
      displayResults_def split: response.splits json.splits option.splits)

lemma statusTick_transient:
  "transient_error resp \<Longrightarrow>
     statusTick j resp rr s = fetch (GET (API_BASE s @ lit ''/status/'' @ template_str j)) s"
  by (auto simp add: transient_error_def statusTick_def Let_def split: response.splits json.splits)

lemma stop_pollers_frame:
  "requests (stop_pollers s) = requests s" "API_BASE (stop_pollers s) = API_BASE s"
  "error_message_textContent (stop_pollers s) = error_message_textContent s"
  "errorSection_display (stop_pollers s) = errorSection_display s"
  by (cases "statusPollInterval s"; cases "logsPollInterval s";
      simp add: stop_pollers_def Let_def)+

lemma statusTick_terminal:
  assumes "ok code" "is_json_content_type ct" "terminal st"
  shows "statusTick j (Response code ct (Json st)) rr s =
     (let s4 = stop_pollers (updateStatusDisplay st
                 (fetch (GET (API_BASE s @ lit ''/status/'' @ template_str j)) s))
      in if status st = Some (lit ''completed'') then loadResults j rr s4
         else showError (lit ''Analysis failed. Please try again.'') s4)"
  using assms by (simp add: statusTick_def stop_pollers_def Let_def)

lemma statusTick_nonterminal:
  assumes "ok code" "is_json_content_type ct" "\<not> terminal st"
  shows "statusTick j (Response code ct (Json st)) rr s =
     updateStatusDisplay st (fetch (GET (API_BASE s @ lit ''/status/'' @ template_str j)) s)"
  using assms by (simp add: statusTick_def Let_def)

lemma completed_not_failed: "lit ''failed'' \<noteq> lit ''completed''"
  by (simp add: lit_def)

lemma statusTick_requests:
  "requests (statusTick j resp rr s) =
     requests s @ GET (API_BASE s @ lit ''/status/'' @ template_str j)
       # (if observes_status (lit ''completed'') resp
          then [GET (API_BASE s @ lit ''/results/'' @ template_str j)] else [])"
proof (cases "transient_error resp")
  case True
  then have "\<not> observes_status (lit ''completed'') resp"
    by (auto simp add: transient_error_def observes_status_def split: response.splits json.splits)
  with True show ?thesis by (simp add: statusTick_transient fetch_def)
next
  case False
  then obtain code ct st where r: "resp = Response code ct (Json st)"
    and c: "ok code" "is_json_content_type ct"
    by (auto simp add: transient_error_def split: response.splits json.splits)
  show ?thesis
  proof (cases "terminal st")
    case True
    show ?thesis
      unfolding r statusTick_terminal[OF c True]
      using c
      by (simp add: Let_def loadResults_requests stop_pollers_frame observes_status_def
          showError_def updateStatusDisplay_def fetch_def)
  next
    case False
    then have "status st \<noteq> Some (lit ''completed'')" by (simp add: terminal_def)
    then show ?thesis
      unfolding r statusTick_nonterminal[OF c False]
      by (simp add: observes_status_def updateStatusDisplay_def fetch_def Let_def)
  qed
qed

lemma statusTick_failed:
  assumes "observes_status (lit ''failed'') resp"
  shows "statusTick j resp rr s =
     showError (lit ''Analysis failed. Please try again.'')
       (stop_pollers (updateStatusDisplay (case resp of Response code ct (Json st) \<Rightarrow> st)
          (fetch (GET (API_BASE s @ lit ''/status/'' @ template_str j)) s)))"
proof -
  from assms obtain code ct st where r: "resp = Response code ct (Json st)"
    and c: "ok code" "is_json_content_type ct" and f: "status st = Some (lit ''failed'')"
    by (auto simp add: observes_status_def split: response.splits json.splits)
  from f have t: "terminal st" by (simp add: terminal_def)
  show ?thesis
    unfolding r statusTick_terminal[OF c t]
    using f completed_not_failed by (simp add: Let_def)
qed

section \<open>The Status Poller and the Results Loader\<close>

text \<open>
  Claim C7. A tick of the Status Poller issues the status request and, after it, the
  results request exactly when it observes status \<open>completed\<close>. When it observes
  status \<open>failed\<close> it therefore fetches no results, and the error surface shows the
  fixed message \<open>Analysis failed. Please try again.\<close>
\<close>

theorem failed_status_shows_fixed_message_without_results_fetch:
  "requests (statusTick j resp rr s) =
     requests s @ GET (API_BASE s @ lit ''/status/'' @ template_str j)
       # (if observes_status (lit ''completed'') resp
          then [GET (API_BASE s @ lit ''/results/'' @ template_str j)] else [])
   \<and> (observes_status (lit ''failed'') resp \<longrightarrow>
        \<not> observes_status (lit ''completed'') resp
        \<and> errorSection_display (statusTick j resp rr s) = lit ''block''
        \<and> error_message_textContent (statusTick j resp rr s)
            = lit ''Analysis failed. Please try again.'')"
proof -
  have "\<not> observes_status (lit ''completed'') resp" if "observes_status (lit ''failed'') resp"
    using that completed_not_failed
    by (auto simp add: observes_status_def split: response.splits json.splits)
  moreover have "errorSection_display (statusTick j resp rr s) = lit ''block''
      \<and> error_message_textContent (statusTick j resp rr s) = lit ''Analysis failed. Please try again.''"
    if "observes_status (lit ''failed'') resp"
    by (simp add: statusTick_failed[OF that] showError_def)
  ultimately show ?thesis using statusTick_requests by blast
qed

lemma observes_failed_env: "observes_status (lit ''failed'') (status_response env_failed)"
  by (simp add: observes_status_def env_failed_def ok_def json_type_def is_json_content_type_def)
     (simp add: lit_def)

theorem failed_status_shows_fixed_message_without_results_fetch_witness:
  "observes_status (lit ''failed'') (status_response env_failed)
   \<and> requests (statusTick (Some (lit ''abc123'')) (status_response env_failed)
        (results_response env_failed) page1)
      = requests page1 @ [GET (API_BASE page1 @ lit ''/status/'' @ lit ''abc123'')]
   \<and> error_message_textContent (statusTick (Some (lit ''abc123'')) (status_response env_failed)
        (results_response env_failed) page1) = lit ''Analysis failed. Please try again.''"
  using failed_status_shows_fixed_message_without_results_fetch
          [of "Some (lit ''abc123'')" "status_response env_failed" "results_response env_failed" page1]
        observes_failed_env
  by simp

section \<open>Classification of log lines\<close>

text \<open>
  Claim C8. The class of a rendered log line is the one of the first category, in the
  order worker, scraper, extractor, error, success, whose marker occurs in the line, and
  the bare class \<open>log-line\<close> when none occurs. In particular a line that carries a
  component tag gets the class of that tag, also when it carries an error marker.
\<close>

theorem log_line_class_is_first_match:
  "logClassName log = lit ''log-line'' @ category_class (first_match category_markers log)
   \<and> (includes_str log (lit ''[WORKER]'') \<longrightarrow> logClassName log = lit ''log-line worker'')
   \<and> (\<not> includes_str log (lit ''[WORKER]'') \<and> includes_str log (lit ''[SCRAPER]'')
        \<longrightarrow> logClassName log = lit ''log-line scraper'')
   \<and> (\<not> includes_str log (lit ''[WORKER]'') \<and> \<not> includes_str log (lit ''[SCRAPER]'')
        \<and> includes_str log (lit ''[EXTRACTOR]'')
        \<longrightarrow> logClassName log = lit ''log-line extractor'')
   \<and> (has_error_marker log
        \<and> (includes_str log (lit ''[WORKER]'') \<or> includes_str log (lit ''[SCRAPER]'')
             \<or> includes_str log (lit ''[EXTRACTOR]''))
        \<longrightarrow> first_match category_markers log \<in> {Worker, Scraper, Extractor}
            \<and> logClassName log \<noteq> lit ''log-line error'')"
proof -
  have lits: "lit ''log-line'' @ lit '' worker'' = lit ''log-line worker''"
    "lit ''log-line'' @ lit '' scraper'' = lit ''log-line scraper''"
    "lit ''log-line'' @ lit '' extractor'' = lit ''log-line extractor''"
    "lit ''log-line'' @ lit '' error'' = lit ''log-line error''"
    by (simp_all add: lit_def)
  have ne: "lit ''log-line worker'' \<noteq> lit ''log-line error''"
    "lit ''log-line scraper'' \<noteq> lit ''log-line error''"
    "lit ''log-line extractor'' \<noteq> lit ''log-line error''"
    by (simp_all add: lit_def)
  have a: "logClassName log = lit ''log-line'' @ category_class (first_match category_markers log)"
    by (simp add: logClassName_def category_markers_def)
  have w: "includes_str log (lit ''[WORKER]'') \<Longrightarrow> logClassName log = lit ''log-line worker''"
    by (simp add: logClassName_def lits)
  have s: "\<not> includes_str log (lit ''[WORKER]'') \<Longrightarrow> includes_str log (lit ''[SCRAPER]'')
      \<Longrightarrow> logClassName log = lit ''log-line scraper''"
    by (simp add: logClassName_def lits)
  have x: "\<not> includes_str log (lit ''[WORKER]'') \<Longrightarrow> \<not> includes_str log (lit ''[SCRAPER]'')
      \<Longrightarrow> includes_str log (lit ''[EXTRACTOR]'') \<Longrightarrow> logClassName log = lit ''log-line extractor''"
    by (simp add: logClassName_def lits)
  have m: "includes_str log (lit ''[WORKER]'') \<or> includes_str log (lit ''[SCRAPER]'')
             \<or> includes_str log (lit ''[EXTRACTOR]'')
      \<Longrightarrow> first_match category_markers log \<in> {Worker, Scraper, Extractor}"
    by (auto simp add: category_markers_def)
  have n: "includes_str log (lit ''[WORKER]'') \<or> includes_str log (lit ''[SCRAPER]'')
             \<or> includes_str log (lit ''[EXTRACTOR]'')
      \<Longrightarrow> logClassName log \<noteq> lit ''log-line error''"
    using w s x ne by metis
  from a w s x m n show ?thesis by blast
qed

lemma scraper_line:
  "includes_str (lit ''[SCRAPER] ERROR: timeout'') (lit ''[SCRAPER]'')"
  "\<not> includes_str (lit ''[SCRAPER] ERROR: timeout'') (lit ''[WORKER]'')"
  "includes_str (lit ''[SCRAPER] ERROR: timeout'') (lit ''ERROR'')"
  by (simp_all add: lit_def)

theorem log_line_class_is_first_match_witness:
  "has_error_marker (lit ''[SCRAPER] ERROR: timeout'')
   \<and> \<not> includes_str (lit ''[SCRAPER] ERROR: timeout'') (lit ''[WORKER]'')
   \<and> includes_str (lit ''[SCRAPER] ERROR: timeout'') (lit ''[SCRAPER]'')
   \<and> logClassName (lit ''[SCRAPER] ERROR: timeout'') = lit ''log-line scraper''
   \<and> logClassName (lit ''[SCRAPER] ERROR: timeout'') \<noteq> lit ''log-line error''"
  using log_line_class_is_first_match [of "lit ''[SCRAPER] ERROR: timeout''"] scraper_line
  unfolding has_error_marker_def by blast

section \<open>The status display\<close>









section \<open>The summary block\<close>

lemma join_eq_Nil_iff:
  "sep \<noteq> [] \<Longrightarrow> join sep cs = [] \<longleftrightarrow> cs = [] \<or> cs = [[]]"
  by (induction sep cs rule: join.induct) auto

lemma or_else_join: "or_else (join (lit '', '') cs) (lit ''N/A'') = countries_text cs"
proof -
  have "lit '', '' \<noteq> []" by simp
  from join_eq_Nil_iff[OF this] show ?thesis
    by (auto simp add: or_else_def countries_text_def)
qed

lemma displayResults_summary:
  "business_summary_innerHTML (displayResults r s) =
     summary_markup (nature (summary r)) (products_services (summary r))
       (countries_text (countries_operating (summary r)))
       (countries_text (countries_dealing_with (summary r)))"
  by (simp add: displayResults_def summary_markup_def or_else_join)

lemma join_gb_fr: "join (lit '', '') [lit ''GB'', lit ''FR''] = lit ''GB, FR''"
  by (simp add: lit_def)

text \<open>
  Claim C9, as stated, fails: the fallback \<open>|| 'N/A'\<close> looks at the joined text, not
  at the set. A country set whose only name is the empty string is not empty, yet its
  joined text is, and the summary shows \<open>N/A\<close>.
\<close>

theorem blank_country_renders_not_available:
  "countries_operating summary_blank_country \<noteq> []
   \<and> business_summary_innerHTML (displayResults \<lparr>summary = summary_blank_country\<rparr> page1)
      = summary_markup (lit ''Retail'') (lit ''Shoes'') (lit ''N/A'') (lit ''GB, FR'')"
  by (simp add: displayResults_summary summary_blank_country_def countries_text_def join_gb_fr)
     (simp add: lit_def)

text \<open>
  Claim C9, amended. The summary block shows, for each of the two country sets, the
  names joined with a comma and a space, except for the empty set and for the set whose
  only name is the empty string, which both show \<open>N/A\<close>; the joined text of every
  other set is not empty. The set GB, FR shows \<open>GB, FR\<close>.
\<close>

theorem summary_block_joins_countries_or_marks_absent:
  "business_summary_innerHTML (displayResults r s) =
     summary_markup (nature (summary r)) (products_services (summary r))
       (countries_text (countries_operating (summary r)))
       (countries_text (countries_dealing_with (summary r)))
   \<and> (cs \<noteq> [] \<and> cs \<noteq> [[]] \<longrightarrow> countries_text cs = join (lit '', '') cs \<and> countries_text cs \<noteq> [])
   \<and> (cs = [] \<or> cs = [[]] \<longrightarrow> countries_text cs = lit ''N/A'')
   \<and> countries_text [lit ''GB'', lit ''FR''] = lit ''GB, FR''"
proof -
  have "lit '', '' \<noteq> []" by simp
  from join_eq_Nil_iff[OF this, of cs]
  have "cs \<noteq> [] \<and> cs \<noteq> [[]] \<longrightarrow> countries_text cs = join (lit '', '') cs \<and> countries_text cs \<noteq> []"
    by (auto simp add: countries_text_def)
  moreover have "countries_text [lit ''GB'', lit ''FR''] = lit ''GB, FR''"
    by (simp add: countries_text_def lit_def)
  moreover have "cs = [] \<or> cs = [[]] \<longrightarrow> countries_text cs = lit ''N/A''"
    by (auto simp add: countries_text_def)
  ultimately show ?thesis using displayResults_summary by blast
qed

lemma summary_gb_fr_fields:
  "nature (summary \<lparr>summary = summary_gb_fr\<rparr>) = lit ''Retail''"
  "products_services (summary \<lparr>summary = summary_gb_fr\<rparr>) = lit ''Shoes''"
  "countries_operating (summary \<lparr>summary = summary_gb_fr\<rparr>) = [lit ''GB'', lit ''FR'']"
  "countries_dealing_with (summary \<lparr>summary = summary_gb_fr\<rparr>) = []"
  by (simp_all add: summary_gb_fr_def)

theorem summary_block_joins_countries_or_marks_absent_witness:
  "[lit ''GB'', lit ''FR''] \<noteq> [] \<and> [lit ''GB'', lit ''FR''] \<noteq> [[]]
   \<and> countries_text [lit ''GB'', lit ''FR''] = join (lit '', '') [lit ''GB'', lit ''FR'']
   \<and> countries_text [] = lit ''N/A''
   \<and> business_summary_innerHTML (displayResults \<lparr>summary = summary_gb_fr\<rparr> page1)
      = summary_markup (lit ''Retail'') (lit ''Shoes'') (lit ''GB, FR'') (lit ''N/A'')"
proof -
  note t1 = summary_block_joins_countries_or_marks_absent
          [of "\<lparr>summary = summary_gb_fr\<rparr>" page1 "[lit ''GB'', lit ''FR'']"]
  note t2 = summary_block_joins_countries_or_marks_absent
          [of "\<lparr>summary = summary_gb_fr\<rparr>" page1 "[]"]
  have a: "[lit ''GB'', lit ''FR''] \<noteq> [] \<and> [lit ''GB'', lit ''FR''] \<noteq> [[]]" by simp
  with t1 have b: "countries_text [lit ''GB'', lit ''FR''] = join (lit '', '') [lit ''GB'', lit ''FR'']"
    by blast
  from t1 have c: "countries_text [lit ''GB'', lit ''FR''] = lit ''GB, FR''" by blast
  from t2 have d: "countries_text [] = lit ''N/A''" by blast
  from t1 have "business_summary_innerHTML (displayResults \<lparr>summary = summary_gb_fr\<rparr> page1) =
     summary_markup (nature (summary \<lparr>summary = summary_gb_fr\<rparr>))
       (products_services (summary \<lparr>summary = summary_gb_fr\<rparr>))
       (countries_text (countries_operating (summary \<lparr>summary = summary_gb_fr\<rparr>)))
       (countries_text (countries_dealing_with (summary \<lparr>summary = summary_gb_fr\<rparr>)))"
    by blast
  then have e: "business_summary_innerHTML (displayResults \<lparr>summary = summary_gb_fr\<rparr> page1)
      = summary_markup (lit ''Retail'') (lit ''Shoes'') (lit ''GB, FR'') (lit ''N/A'')"
    unfolding summary_gb_fr_fields c d .
  from a b d e show ?thesis by blast
qed

section \<open>The Results Loader\<close>

text \<open>
  Claim C10. When the results request resolves to a 2xx response whose decoded payload
  has neither an \<open>error\<close> nor a \<open>result\<close> field, \<open>loadResults\<close> only records the
  request: no error is surfaced, no results are rendered, and the status section keeps
  its visibility.
\<close>

theorem results_payload_without_error_or_result_leaves_display:
  assumes "ok code" and "error d = None" and "result d = None"
  shows "loadResults j (Response code ct (Json d)) s
           = s\<lparr>requests := requests s @ [GET (API_BASE s @ lit ''/results/'' @ template_str j)]\<rparr>
         \<and> errorSection_display (loadResults j (Response code ct (Json d)) s) = errorSection_display s
         \<and> error_message_textContent (loadResults j (Response code ct (Json d)) s)
             = error_message_textContent s
         \<and> business_summary_innerHTML (loadResults j (Response code ct (Json d)) s)
             = business_summary_innerHTML s
         \<and> resultsSection_display (loadResults j (Response code ct (Json d)) s)
             = resultsSection_display s
         \<and> statusSection_display (loadResults j (Response code ct (Json d)) s)
             = statusSection_display s"
  using assms by (simp add: loadResults_def fetch_def Let_def)

theorem results_payload_without_error_or_result_leaves_display_witness:
  "ok 200 \<and> error \<lparr>error = None, result = None\<rparr> = None
   \<and> result \<lparr>error = None, result = None\<rparr> = None
   \<and> loadResults (Some (lit ''abc123'')) (Response 200 json_type (Json \<lparr>error = None, result = None\<rparr>)) page1
       = page1\<lparr>requests := requests page1 @ [GET (API_BASE page1 @ lit ''/results/'' @ lit ''abc123'')]\<rparr>
   \<and> statusSection_display (loadResults (Some (lit ''abc123''))
         (Response 200 json_type (Json \<lparr>error = None, result = None\<rparr>)) page1)
       = statusSection_display page1"
proof -
  have h: "ok 200" "error \<lparr>error = None, result = None\<rparr> = None"
    "result \<lparr>error = None, result = None\<rparr> = None"
    by (simp_all add: ok_def)
  from results_payload_without_error_or_result_leaves_display[OF h, of "Some (lit ''abc123'')" json_type page1]
  show ?thesis using h by simp
qed

section \<open>Submission\<close>

lemma handleFormSubmit_blank:
  "trim (urlInput_value s) = [] \<Longrightarrow>
     handleFormSubmit r s = showError (lit ''Please enter a valid URL'') s"
  by (simp add: handleFormSubmit_def)

lemma handleFormSubmit_fails:
  assumes "trim (urlInput_value s) \<noteq> []" and "request_fails r"
  shows "handleFormSubmit r s = handleFormSubmit_catch (failure_message r) (submit_prepared s)"
  using assms
  by (cases r) (simp_all add: handleFormSubmit_def Let_def submit_prepared_def)

lemma handleFormSubmit_json_error:
  assumes "trim (urlInput_value s) \<noteq> []" and "ok code"
  shows "handleFormSubmit (Response code ct (JsonError m)) s
           = handleFormSubmit_catch m (submit_prepared s)"
  using assms by (simp add: handleFormSubmit_def Let_def submit_prepared_def)

lemma handleFormSubmit_succeeds:
  assumes "trim (urlInput_value s) \<noteq> []" and "ok code"
  shows "handleFormSubmit (Response code ct (Json d)) s
           = loadHistory
               ((startLogsPolling (job_id d) (startStatusPolling (job_id d)
                   ((submit_prepared s)\<lparr>currentJobId := job_id d\<rparr>)))
                \<lparr>urlInput_value := [], submitBtn_disabled := False,
                  submitBtn_textContent := lit ''Analyze Website''\<rparr>)"
  using assms by (simp add: handleFormSubmit_def Let_def submit_prepared_def)

lemma submit_prepared_fields:
  "requests (submit_prepared s)
     = requests s @ [POST (API_BASE s @ lit ''/analyze'') (trim (urlInput_value s))]"
  "timers (submit_prepared s) = timers s"
  "API_BASE (submit_prepared s) = API_BASE s"
  by (simp_all add: submit_prepared_def fetch_def updateStatusDisplay_def showStatus_def
      hideResults_def hideError_def timers_def)

lemma catch_fields:
  "requests (handleFormSubmit_catch m s) = requests s"
  "error_message_textContent (handleFormSubmit_catch m s) = lit ''Error: '' @ m"
  "errorSection_display (handleFormSubmit_catch m s) = lit ''block''"
  "statusSection_display (handleFormSubmit_catch m s) = lit ''none''"
  by (simp_all add: handleFormSubmit_catch_def showError_def hideStatus_def)

lemma start_requests:
  "requests (startStatusPolling j s) = requests s"
  "requests (startLogsPolling j s) = requests s"
  "API_BASE (startStatusPolling j s) = API_BASE s"
  "API_BASE (startLogsPolling j s) = API_BASE s"
  by (cases "statusPollInterval s"; cases "logsPollInterval s";
      simp add: startStatusPolling_def startLogsPolling_def setInterval_def Let_def)+

lemma handleFormSubmit_requests:
  assumes "trim (urlInput_value s) \<noteq> []"
  shows "POST (API_BASE s @ lit ''/analyze'') (trim (urlInput_value s))
           \<in> set (requests (handleFormSubmit r s))"
proof (cases r)
  case (NetworkError m)
  then have "request_fails r" by simp
  from handleFormSubmit_fails[OF assms this] show ?thesis
    by (simp add: catch_fields submit_prepared_fields)
next
  case (Response code ct body)
  show ?thesis
  proof (cases "ok code")
    case False
    with Response have "request_fails r" by simp
    from handleFormSubmit_fails[OF assms this] show ?thesis
      by (simp add: catch_fields submit_prepared_fields)
  next
    case True
    show ?thesis
    proof (cases body)
      case (JsonError m)
      with Response handleFormSubmit_json_error[OF assms True] show ?thesis
        by (simp add: catch_fields submit_prepared_fields)
    next
      case (Json d)
      with Response handleFormSubmit_succeeds[OF assms True] show ?thesis
        by (simp add: loadHistory_def fetch_def start_requests submit_prepared_fields)
    qed
  qed
qed

text \<open>
  Claim C5. When the input is empty or consists of whitespace only, \<open>handleFormSubmit\<close>
  issues no request and shows the validation message \<open>Please enter a valid URL\<close>;
  whenever it issues a request, the trimmed input is not empty and the request is the
  submission of that trimmed input.
\<close>

theorem blank_url_is_rejected_before_any_request:
  "((\<forall>c \<in> set (urlInput_value s). isWhiteSpace c) \<longrightarrow>
      handleFormSubmit r s = showError (lit ''Please enter a valid URL'') s
      \<and> requests (handleFormSubmit r s) = requests s
      \<and> errorSection_display (handleFormSubmit r s) = lit ''block''
      \<and> error_message_textContent (handleFormSubmit r s) = lit ''Please enter a valid URL'')
   \<and> (requests (handleFormSubmit r s) \<noteq> requests s \<longrightarrow>
        trim (urlInput_value s) \<noteq> []
        \<and> (\<exists>c \<in> set (urlInput_value s). \<not> isWhiteSpace c)
        \<and> POST (API_BASE s @ lit ''/analyze'') (trim (urlInput_value s))
             \<in> set (requests (handleFormSubmit r s)))"
proof -
  have blank: "handleFormSubmit r s = showError (lit ''Please enter a valid URL'') s
      \<and> requests (handleFormSubmit r s) = requests s
      \<and> errorSection_display (handleFormSubmit r s) = lit ''block''
      \<and> error_message_textContent (handleFormSubmit r s) = lit ''Please enter a valid URL''"
    if "\<forall>c \<in> set (urlInput_value s). isWhiteSpace c"
  proof -
    from that have "trim (urlInput_value s) = []" by (simp add: trim_Nil_iff)
    then show ?thesis by (simp add: handleFormSubmit_blank showError_def)
  qed
  have issued: "trim (urlInput_value s) \<noteq> []
        \<and> (\<exists>c \<in> set (urlInput_value s). \<not> isWhiteSpace c)
        \<and> POST (API_BASE s @ lit ''/analyze'') (trim (urlInput_value s))
             \<in> set (requests (handleFormSubmit r s))"
    if "requests (handleFormSubmit r s) \<noteq> requests s"
  proof -
    have ne: "trim (urlInput_value s) \<noteq> []"
    proof
      assume "trim (urlInput_value s) = []"
      then have "requests (handleFormSubmit r s) = requests s"
        by (simp add: handleFormSubmit_blank showError_def)
      with that show False by simp
    qed
    then have "\<exists>c \<in> set (urlInput_value s). \<not> isWhiteSpace c"
      by (simp add: trim_Nil_iff)
    with ne handleFormSubmit_requests[OF ne] show ?thesis by blast
  qed
  from blank issued show ?thesis by blast
qed

lemma blank_input: "\<forall>c \<in> set [32, 9, 160]. isWhiteSpace c"
  by (simp add: isWhiteSpace_def)

theorem blank_url_is_rejected_before_any_request_witness:
  "isWhiteSpace 32 \<and> isWhiteSpace 9 \<and> isWhiteSpace 160
   \<and> requests (handleFormSubmit (analyze_response env_completed)
        (page0\<lparr>urlInput_value := [32, 9, 160]\<rparr>))
      = requests (page0\<lparr>urlInput_value := [32, 9, 160]\<rparr>)
   \<and> error_message_textContent (handleFormSubmit (analyze_response env_completed)
        (page0\<lparr>urlInput_value := [32, 9, 160]\<rparr>)) = lit ''Please enter a valid URL''"
proof -
  have h: "\<forall>c \<in> set (urlInput_value (page0\<lparr>urlInput_value := [32, 9, 160]\<rparr>)). isWhiteSpace c"
    using blank_input by simp
  have w: "isWhiteSpace 32 \<and> isWhiteSpace 9 \<and> isWhiteSpace 160"
    by (simp add: isWhiteSpace_def)
  from h blank_url_is_rejected_before_any_request
         [of "page0\<lparr>urlInput_value := [32, 9, 160]\<rparr>" "analyze_response env_completed"]
  have "requests (handleFormSubmit (analyze_response env_completed)
        (page0\<lparr>urlInput_value := [32, 9, 160]\<rparr>))
      = requests (page0\<lparr>urlInput_value := [32, 9, 160]\<rparr>)
   \<and> error_message_textContent (handleFormSubmit (analyze_response env_completed)
        (page0\<lparr>urlInput_value := [32, 9, 160]\<rparr>)) = lit ''Please enter a valid URL''"
    by blast
  with w show ?thesis by blast
qed

text \<open>
  Claim C6. When the submission request fails, by a network error or a response that is
  not 2xx, the error surface shows \<open>Error: \<close> followed by the error's message, the
  status section is hidden, and the timer table and both poller handles are as before:
  no poller is started. The only request issued is the submission itself.
\<close>

theorem failed_submission_shows_error_and_starts_no_poller:
  assumes "trim (urlInput_value s) \<noteq> []" and "request_fails r"
  shows "error_message_textContent (handleFormSubmit r s) = lit ''Error: '' @ failure_message r
       \<and> errorSection_display (handleFormSubmit r s) = lit ''block''
       \<and> statusSection_display (handleFormSubmit r s) = lit ''none''
       \<and> intervals (handleFormSubmit r s) = intervals s
       \<and> statusPollInterval (handleFormSubmit r s) = statusPollInterval s
       \<and> logsPollInterval (handleFormSubmit r s) = logsPollInterval s
       \<and> requests (handleFormSubmit r s)
           = requests s @ [POST (API_BASE s @ lit ''/analyze'') (trim (urlInput_value s))]"
proof -
  have "timers (handleFormSubmit r s) = timers s"
    by (simp add: handleFormSubmit_fails[OF assms] submit_prepared_fields)
  then have "intervals (handleFormSubmit r s) = intervals s
       \<and> statusPollInterval (handleFormSubmit r s) = statusPollInterval s
       \<and> logsPollInterval (handleFormSubmit r s) = logsPollInterval s"
    by (simp add: timers_def)
  then show ?thesis
    by (simp add: handleFormSubmit_fails[OF assms] submit_prepared_fields catch_fields)
qed

theorem failed_submission_shows_error_and_starts_no_poller_witness:
  "trim (urlInput_value page_typed) \<noteq> [] \<and> request_fails (analyze_response env_down)
   \<and> error_message_textContent (handleFormSubmit (analyze_response env_down) page_typed)
       = lit ''Error: '' @ lit ''Failed to submit analysis''
   \<and> statusSection_display (handleFormSubmit (analyze_response env_down) page_typed) = lit ''none''
   \<and> intervals (handleFormSubmit (analyze_response env_down) page_typed) = []"
proof -
  have h1: "trim (urlInput_value page_typed) \<noteq> []"
    by (simp add: page_typed_eq trim_example)
  have h2: "request_fails (analyze_response env_down)"
    by (simp add: env_down_def ok_def)
  have f: "failure_message (analyze_response env_down) = lit ''Failed to submit analysis''"
    by (simp add: env_down_def)
  have i: "intervals page_typed = []" by (simp add: page_typed_eq page0_def)
  from failed_submission_shows_error_and_starts_no_poller[OF h1 h2] h1 h2 f i
  show ?thesis by simp
qed

section \<open>Polling\<close>

lemma map_of_drop_handle:
  "map_of (filter (\<lambda>t. fst t \<noteq> l) iv) h = (if h = l then None else map_of iv h)"
  by (induction iv) auto

lemma timers_fields:
  assumes "timers s' = timers s"
  shows "statusPollInterval s' = statusPollInterval s" "logsPollInterval s' = logsPollInterval s"
    "intervals s' = intervals s" "nextHandle s' = nextHandle s"
  using assms by (simp_all add: timers_def)

lemma active_status_global:
  assumes "pollers_ok s" and "map_of (intervals s) h = Some (StatusPoll j)"
  shows "statusPollInterval s = Some h" and "0 < h" and "h < nextHandle s"
proof -
  from assms(2) have m: "(h, StatusPoll j) \<in> set (intervals s)" by (rule map_of_SomeD)
  from assms(1) have ok: "timers_ok (statusPollInterval s) (logsPollInterval s) (intervals s) (nextHandle s)"
    by (simp add: pollers_ok_def)
  from timers_ok_status_global[OF ok m] show "statusPollInterval s = Some h" .
  from timers_ok_bounds[OF ok m] show "0 < h" and "h < nextHandle s" by simp_all
qed

lemma active_logs_global:
  assumes "pollers_ok s" and "map_of (intervals s) h = Some (LogsPoll j)"
  shows "logsPollInterval s = Some h"
proof -
  from assms(2) have m: "(h, LogsPoll j) \<in> set (intervals s)" by (rule map_of_SomeD)
  from assms(1) have ok: "timers_ok (statusPollInterval s) (logsPollInterval s) (intervals s) (nextHandle s)"
    by (simp add: pollers_ok_def)
  from timers_ok_logs_global[OF ok m] show ?thesis .
qed


lemma active_status_def2:
  "status_poller_active h s \<longleftrightarrow> (\<exists>j. map_of (intervals s) h = Some (StatusPoll j))"
  by (simp add: status_poller_active_def split: option.splits callback.splits)

lemma active_logs_def2:
  "logs_poller_active h s \<longleftrightarrow> (\<exists>j. map_of (intervals s) h = Some (LogsPoll j))"
  by (simp add: logs_poller_active_def split: option.splits callback.splits)

lemma status_resume_stops_all:
  assumes "pollers_ok s" and "observes_terminal r"
  shows "statusPollInterval (fst (statusTick_resume j r s)) = None"
    and "logsPollInterval (fst (statusTick_resume j r s)) = None"
    and "intervals (fst (statusTick_resume j r s)) = []"
proof -
  have "timers (fst (statusTick_resume j r s)) = (None, None, [], nextHandle s)"
    using assms by (simp add: timers_statusTick_resume timers_stop_pollers)
  then show "statusPollInterval (fst (statusTick_resume j r s)) = None"
    and "logsPollInterval (fst (statusTick_resume j r s)) = None"
    and "intervals (fst (statusTick_resume j r s)) = []"
    by (simp_all add: timers_def)
qed

lemma start_both_cancels:
  assumes ok: "pollers_ok s" and act: "map_of (intervals s) h = Some (StatusPoll j)"
  shows "map_of (intervals (startLogsPolling j' (startStatusPolling j' s))) h = None"
proof -
  note g = active_status_global[OF ok act]
  define iv1 where "iv1 = filter (\<lambda>t. fst t \<noteq> h) (intervals s) @ [(nextHandle s, StatusPoll j')]"
  have t1: "timers (startStatusPolling j' s)
      = (Some (nextHandle s), logsPollInterval s, iv1, Suc (nextHandle s))"
    using g by (simp add: timers_startStatusPolling iv1_def)
  have m1: "map_of iv1 h = None"
    using g by (simp add: iv1_def map_of_drop_handle map_add_def)
  have f1: "intervals (startStatusPolling j' s) = iv1"
    "logsPollInterval (startStatusPolling j' s) = logsPollInterval s"
    "nextHandle (startStatusPolling j' s) = Suc (nextHandle s)"
    using t1 by (simp_all add: timers_def)
  have "intervals (startLogsPolling j' (startStatusPolling j' s))
     = (if truthy_handle (logsPollInterval s)
        then filter (\<lambda>t. fst t \<noteq> the (logsPollInterval s)) iv1 else iv1)
       @ [(Suc (nextHandle s), LogsPoll j')]"
    using timers_startLogsPolling[of j' "startStatusPolling j' s"]
    by (simp add: timers_def f1)
  then show ?thesis
    using m1 g by (simp add: map_of_drop_handle map_add_def)
qed

lemma stop_logs_keeps_status_poller:
  assumes ok: "pollers_ok s" and act: "map_of (intervals s) h = Some (StatusPoll j)"
  shows "map_of (intervals (stop_logs s)) h = Some (StatusPoll j)"
proof (cases "logsPollInterval s")
  case None
  then have "intervals (stop_logs s) = intervals s" by (simp add: stop_logs_def)
  with act show ?thesis by simp
next
  case (Some l)
  from ok have tk: "timers_ok (statusPollInterval s) (logsPollInterval s) (intervals s) (nextHandle s)"
    by (simp add: pollers_ok_def)
  from timers_ok_logs_in[OF tk Some] obtain jl where jl: "(l, LogsPoll jl) \<in> set (intervals s)"
    by blast
  from act have "(h, StatusPoll j) \<in> set (intervals s)" by (rule map_of_SomeD)
  from timers_ok_kinds_differ[OF tk this jl] have "h \<noteq> l" .
  moreover from Some have "intervals (stop_logs s) = filter (\<lambda>t. fst t \<noteq> l) (intervals s)"
    by (simp add: stop_logs_def)
  ultimately show ?thesis using act by (simp add: map_of_drop_handle)
qed

lemma status_poller_resume:
  assumes ok: "pollers_ok s" and act: "map_of (intervals s) h = Some (StatusPoll j)"
  shows "(\<not> status_poller_active h (fst (resume p e s))) \<longleftrightarrow>
           ((\<exists>j'. p = AwaitStatus j') \<and> observes_terminal (status_response e))
           \<or> (p = AwaitAnalyze \<and> analyze_decoded (analyze_response e))"
proof -
  have same: "status_poller_active h (fst (resume p e s))"
    if "timers (fst (resume p e s)) = timers s"
    using timers_fields(3)[OF that] act by (simp add: active_status_def2)
  show ?thesis
  proof (cases p)
    case AwaitAnalyze
    show ?thesis
    proof (cases "analyze_decoded (analyze_response e)")
      case True
      from timers_handleFormSubmit_resume_ok[OF True] obtain j' where
        t: "timers (fst (handleFormSubmit_resume (analyze_response e) s))
              = timers (startLogsPolling j' (startStatusPolling j' s))"
        by blast
      from timers_fields(3)[OF t] start_both_cancels[OF ok act]
      have "\<not> status_poller_active h (fst (resume p e s))"
        unfolding AwaitAnalyze by (simp add: active_status_def2)
      with True AwaitAnalyze show ?thesis by simp
    next
      case False
      then have "timers (fst (resume p e s)) = timers s"
        unfolding AwaitAnalyze by (simp add: timers_handleFormSubmit_resume_fail)
      from same[OF this] False AwaitAnalyze show ?thesis by simp
    qed
  next
    case (AwaitStatus j')
    show ?thesis
    proof (cases "observes_terminal (status_response e)")
      case True
      from status_resume_stops_all(3)[OF ok True]
      have "\<not> status_poller_active h (fst (resume p e s))"
        unfolding AwaitStatus by (simp add: active_status_def2)
      with True AwaitStatus show ?thesis by simp
    next
      case False
      then have "timers (fst (resume p e s)) = timers s"
        unfolding AwaitStatus by (simp add: timers_statusTick_resume)
      from same[OF this] False AwaitStatus show ?thesis by simp
    qed
  next
    case AwaitResults
    then have "timers (fst (resume p e s)) = timers s" by simp
    from same[OF this] AwaitResults show ?thesis by simp
  next
    case (AwaitLogs j')
    then have "timers (fst (resume p e s)) = timers s" by simp
    from same[OF this] AwaitLogs show ?thesis by simp
  next
    case AwaitLogsStatus
    show ?thesis
    proof (cases "status_says_done (status_response e)")
      case True
      then have t: "timers (fst (resume p e s)) = timers (stop_logs s)"
        unfolding AwaitLogsStatus by (simp add: timers_logsTick_resume_status)
      from timers_fields(3)[OF t] stop_logs_keeps_status_poller[OF ok act]
      have "status_poller_active h (fst (resume p e s))"
        by (simp add: active_status_def2)
      with AwaitLogsStatus show ?thesis by simp
    next
      case False
      then have "timers (fst (resume p e s)) = timers s"
        unfolding AwaitLogsStatus by (simp add: timers_logsTick_resume_status)
      from same[OF this] AwaitLogsStatus show ?thesis by simp
    qed
  next
    case AwaitHistory
    then have "timers (fst (resume p e s)) = timers s" by simp
    from same[OF this] AwaitHistory show ?thesis by simp
  qed
qed

lemma status_poller_step:
  assumes ok: "pollers_ok (fst c)" and act: "map_of (intervals (fst c)) h = Some (StatusPoll j)"
  shows "(\<not> status_poller_active h (fst (step ev e c))) \<longleftrightarrow>
           (\<exists>k. ev = Resume k \<and> k < length (snd c)
                \<and> (((\<exists>j'. snd c ! k = AwaitStatus j') \<and> observes_terminal (status_response e))
                    \<or> (snd c ! k = AwaitAnalyze \<and> analyze_decoded (analyze_response e))))"
proof (cases "\<exists>k. ev = Resume k")
  case False
  then have "timers (fst (step ev e c)) = timers (fst c)"
    by (intro timers_step_other) blast
  from timers_fields(3)[OF this] act have "status_poller_active h (fst (step ev e c))"
    by (simp add: active_status_def2)
  with False show ?thesis by blast
next
  case True
  then obtain k where k: "ev = Resume k" by blast
  show ?thesis
  proof (cases "k < length (snd c)")
    case True
    from status_poller_resume[OF ok act, of "snd c ! k" e] True show ?thesis
      unfolding k step_Resume(1)[OF True] by simp
  next
    case False
    then have "step ev e c = c" unfolding k by (rule step_Resume_beyond)
    with act False k show ?thesis by (simp add: active_status_def2)
  qed
qed

lemma transient_resume:
  assumes "k < length (snd c)" and "snd c ! k = AwaitStatus j'"
    and "transient_error (status_response e)"
  shows "fst (step (Resume k) e c) = fst c"
  unfolding step_Resume(1)[OF assms(1)] assms(2)
  using assms(3) by (simp add: statusTick_resume_transient)

lemma transient_tick:
  assumes "map_of (intervals (fst c)) h = Some (StatusPoll j)"
    and "transient_error (status_response e)"
  shows "tick_and_resolve h e c
           = ((fst c)\<lparr>requests := requests (fst c)
                 @ [GET (API_BASE (fst c) @ lit ''/status/'' @ template_str j)]\<rparr>, snd c)"
proof -
  obtain s ps where c: "c = (s, ps)" by (cases c)
  from assms(1) have f: "step (TimerFires h) e c = (statusTick_start j s, ps @ [AwaitStatus j])"
    unfolding c by simp
  show ?thesis
    unfolding tick_and_resolve_def f using assms(2)
    by (simp add: c statusTick_resume_transient statusTick_start_def fetch_def)
qed

lemma transient_run:
  assumes "map_of (intervals (fst c)) h = Some (StatusPoll j)"
    and "\<forall>e \<in> set es. transient_error (status_response e)"
  shows "fold (tick_and_resolve h) es c
           = ((fst c)\<lparr>requests := requests (fst c)
                 @ replicate (length es) (GET (API_BASE (fst c) @ lit ''/status/'' @ template_str j))\<rparr>,
              snd c)"
  using assms
proof (induction es arbitrary: c)
  case Nil
  then show ?case by simp
next
  case (Cons e es)
  define c1 where "c1 = ((fst c)\<lparr>requests := requests (fst c)
                 @ [GET (API_BASE (fst c) @ lit ''/status/'' @ template_str j)]\<rparr>, snd c)"
  have "transient_error (status_response e)" using Cons.prems(2) by simp
  from transient_tick[OF Cons.prems(1) this] have st: "tick_and_resolve h e c = c1"
    by (simp add: c1_def)
  have a1: "map_of (intervals (fst c1)) h = Some (StatusPoll j)"
    using Cons.prems(1) by (simp add: c1_def)
  have a2: "\<forall>e \<in> set es. transient_error (status_response e)"
    using Cons.prems(2) by simp
  from Cons.IH[OF a1 a2] st show ?case
    by (simp add: c1_def replicate_append_same)
qed

lemma tick_and_resolve_status:
  assumes "map_of (intervals (fst c)) h = Some (StatusPoll j)"
  shows "fst (tick_and_resolve h e c)
           = fst (statusTick_resume j (status_response e) (statusTick_start j (fst c)))"
proof -
  obtain s ps where c: "c = (s, ps)" by (cases c)
  from assms have f: "step (TimerFires h) e c = (statusTick_start j s, ps @ [AwaitStatus j])"
    unfolding c by simp
  show ?thesis unfolding tick_and_resolve_def f by (simp add: c)
qed

text \<open>
  Claim C1, as stated, fails: the remainder of a tick clears the schedule that the
  global handle names when the response arrives, whichever timer fired the tick. In
  \<open>conf_resubmitted\<close> the Status Poller of the second job, timer 3, is scheduled; it
  has not fired, and no request for the status of job \<open>def456\<close> has been issued. The
  await in flight at position 1 is the tick of the first job's poller. When its response
  says \<open>completed\<close>, timer 3 is cleared, by an event that is neither its own tick nor a
  cancellation.
\<close>

theorem stale_tick_stops_the_new_status_poller:
  "reachable conf_resubmitted
   \<and> status_poller_active 3 (fst conf_resubmitted)
   \<and> statusPollInterval (fst conf_resubmitted) = Some 3
   \<and> snd conf_resubmitted ! 1 = AwaitStatus (Some (lit ''abc123''))
   \<and> GET (lit ''/api/status/def456'') \<notin> set (requests (fst conf_resubmitted))
   \<and> \<not> status_poller_active 3 (fst (step (Resume 1) env_completed conf_resubmitted))
   \<and> intervals (fst (step (Resume 1) env_completed conf_resubmitted)) = []"
proof -
  have a: "status_poller_active 3 (fst conf_resubmitted)"
    by (simp add: conf_resubmitted_eq status_poller_active_def)
  have b: "statusPollInterval (fst conf_resubmitted) = Some 3"
    by (simp add: conf_resubmitted_eq)
  have c: "snd conf_resubmitted ! 1 = AwaitStatus (Some (lit ''abc123''))"
    by (simp add: conf_resubmitted_eq)
  have d: "GET (lit ''/api/status/def456'') \<notin> set (requests (fst conf_resubmitted))"
    by (simp add: conf_resubmitted_eq) (simp add: lit_def)
  have l: "1 < length (snd conf_resubmitted)"
    by (simp add: conf_resubmitted_eq)
  have ok: "pollers_ok (fst conf_resubmitted)"
    using reachable_conf_resubmitted by (rule reachable_pollers_ok)
  have e: "intervals (fst (step (Resume 1) env_completed conf_resubmitted)) = []"
    unfolding step_Resume(1)[OF l] c
    using status_resume_stops_all(3)[OF ok env_facts(2)] by simp
  then have f: "\<not> status_poller_active 3 (fst (step (Resume 1) env_completed conf_resubmitted))"
    by (simp add: status_poller_active_def)
  from reachable_conf_resubmitted a b c d e f show ?thesis by blast
qed

text \<open>
  Claim C1, amended. In a reachable configuration, a scheduled Status Poller is no
  longer scheduled after an event exactly when the event is the resumption of a status
  tick whose response is a terminal status, be it the tick of this poller or one still
  in flight from a poller that a later submission has replaced, or the resumption of a
  submission that succeeds, whose \<open>startStatusPolling\<close> cancels it (the only
  cancellation the program has). A status tick that ends in a transient error leaves
  the page as it is, and a run of any number of ticks that each end in a transient
  error leaves the poller scheduled and the page unchanged but for the log of issued
  requests.
\<close>

theorem status_poller_stops_iff_a_tick_observes_terminal_or_resubmission:
  assumes "reachable c" and "map_of (intervals (fst c)) h = Some (StatusPoll j)"
  shows "((\<not> status_poller_active h (fst (step ev e c))) \<longleftrightarrow>
            (\<exists>k. ev = Resume k \<and> k < length (snd c)
                 \<and> (((\<exists>j'. snd c ! k = AwaitStatus j') \<and> observes_terminal (status_response e))
                     \<or> (snd c ! k = AwaitAnalyze \<and> analyze_decoded (analyze_response e)))))
         \<and> (\<forall>k j'. k < length (snd c) \<and> snd c ! k = AwaitStatus j'
                    \<and> transient_error (status_response e)
                \<longrightarrow> fst (step (Resume k) e c) = fst c)
         \<and> ((\<forall>x \<in> set es. transient_error (status_response x)) \<longrightarrow>
              status_poller_active h (fst (fold (tick_and_resolve h) es c))
              \<and> fold (tick_and_resolve h) es c
                  = ((fst c)\<lparr>requests := requests (fst c)
                        @ replicate (length es)
                            (GET (API_BASE (fst c) @ lit ''/status/'' @ template_str j))\<rparr>,
                     snd c))"
proof -
  from assms(1) have ok: "pollers_ok (fst c)" by (rule reachable_pollers_ok)
  have run: "status_poller_active h (fst (fold (tick_and_resolve h) es c))
              \<and> fold (tick_and_resolve h) es c
                  = ((fst c)\<lparr>requests := requests (fst c)
                        @ replicate (length es)
                            (GET (API_BASE (fst c) @ lit ''/status/'' @ template_str j))\<rparr>,
                     snd c)"
    if "\<forall>x \<in> set es. transient_error (status_response x)"
    using transient_run[OF assms(2) that] assms(2) by (simp add: active_status_def2)
  have one: "\<forall>k j'. k < length (snd c) \<and> snd c ! k = AwaitStatus j'
                    \<and> transient_error (status_response e)
                \<longrightarrow> fst (step (Resume k) e c) = fst c"
    using transient_resume by blast
  from status_poller_step[OF ok assms(2)] run one show ?thesis by blast
qed

theorem status_poller_stops_iff_a_tick_observes_terminal_or_resubmission_witness:
  "reachable conf_two_ticks
   \<and> map_of (intervals (fst conf_two_ticks)) 1 = Some (StatusPoll (Some (lit ''abc123'')))
   \<and> snd conf_two_ticks ! 1 = AwaitStatus (Some (lit ''abc123''))
   \<and> observes_terminal (status_response env_failed)
   \<and> \<not> status_poller_active 1 (fst (step (Resume 1) env_failed conf_two_ticks))
   \<and> status_poller_active 1 (fst (step (TimerFires 2) env_completed conf_two_ticks))
   \<and> transient_error (status_response env_down)
   \<and> fst (step (Resume 1) env_down conf_two_ticks) = fst conf_two_ticks
   \<and> status_poller_active 1 (fst (fold (tick_and_resolve 1) [env_down, env_down] conf_two_ticks))"
proof -
  note t = status_poller_stops_iff_a_tick_observes_terminal_or_resubmission
             [OF reachable_conf_two_ticks conf_two_ticks_pollers(1)]
  have l: "1 < length (snd conf_two_ticks)" by (simp add: conf_two_ticks_pollers)
  have a: "\<not> status_poller_active 1 (fst (step (Resume 1) env_failed conf_two_ticks))"
    using t[of "Resume 1" env_failed "[]"] env_facts(1) l conf_two_ticks_pollers(2) by simp
  have b: "status_poller_active 1 (fst (step (TimerFires 2) env_completed conf_two_ticks))"
    using t[of "TimerFires 2" env_completed "[]"] by simp
  have c: "fst (step (Resume 1) env_down conf_two_ticks) = fst conf_two_ticks"
    using t[of "Resume 1" env_down "[]"] env_facts(3) l conf_two_ticks_pollers(2) by blast
  have "\<forall>x \<in> set [env_down, env_down]. transient_error (status_response x)"
    using env_facts(3) by simp
  with t[of "Resume 1" env_down "[env_down, env_down]"]
  have d: "status_poller_active 1 (fst (fold (tick_and_resolve 1) [env_down, env_down] conf_two_ticks))"
    by blast
  from reachable_conf_two_ticks conf_two_ticks_pollers(1,2) env_facts(1,3) a b c d
  show ?thesis by blast
qed

text \<open>
  Claim C2. In a reachable configuration, the remainder of a tick of the Status Poller
  that gets a terminal status clears both global handles and leaves the timer table
  empty, whatever has run since the tick was issued: in that same tick neither the
  Status Poller nor the Log Stream Poller remains scheduled. In particular this holds
  for a tick whose request is answered at once.
\<close>

theorem terminal_status_stops_both_pollers_in_same_tick:
  assumes "reachable c" and "observes_terminal (status_response e)"
  shows "(\<forall>k j. k < length (snd c) \<and> snd c ! k = AwaitStatus j \<longrightarrow>
            statusPollInterval (fst (step (Resume k) e c)) = None
            \<and> logsPollInterval (fst (step (Resume k) e c)) = None
            \<and> intervals (fst (step (Resume k) e c)) = []
            \<and> (\<forall>h'. \<not> status_poller_active h' (fst (step (Resume k) e c))
                     \<and> \<not> logs_poller_active h' (fst (step (Resume k) e c))))
       \<and> (\<forall>h j. map_of (intervals (fst c)) h = Some (StatusPoll j) \<longrightarrow>
            statusPollInterval (fst (tick_and_resolve h e c)) = None
            \<and> logsPollInterval (fst (tick_and_resolve h e c)) = None
            \<and> intervals (fst (tick_and_resolve h e c)) = []
            \<and> (\<forall>h'. \<not> status_poller_active h' (fst (tick_and_resolve h e c))
                     \<and> \<not> logs_poller_active h' (fst (tick_and_resolve h e c))))"
proof -
  from assms(1) have ok: "pollers_ok (fst c)" by (rule reachable_pollers_ok)
  have stopped: "statusPollInterval s' = None \<and> logsPollInterval s' = None \<and> intervals s' = []
      \<and> (\<forall>h'. \<not> status_poller_active h' s' \<and> \<not> logs_poller_active h' s')"
    if "s' = fst (statusTick_resume j (status_response e) s)" and "pollers_ok s" for s' j s
    using status_resume_stops_all[OF that(2) assms(2), of j] that(1)
    by (simp add: active_status_def2 active_logs_def2)
  have r: "statusPollInterval (fst (step (Resume k) e c)) = None
            \<and> logsPollInterval (fst (step (Resume k) e c)) = None
            \<and> intervals (fst (step (Resume k) e c)) = []
            \<and> (\<forall>h'. \<not> status_poller_active h' (fst (step (Resume k) e c))
                     \<and> \<not> logs_poller_active h' (fst (step (Resume k) e c)))"
    if "k < length (snd c)" and "snd c ! k = AwaitStatus j" for k j
  proof (rule stopped[OF _ ok])
    show "fst (step (Resume k) e c) = fst (statusTick_resume j (status_response e) (fst c))"
      unfolding step_Resume(1)[OF that(1)] that(2) by simp
  qed
  have t: "statusPollInterval (fst (tick_and_resolve h e c)) = None
            \<and> logsPollInterval (fst (tick_and_resolve h e c)) = None
            \<and> intervals (fst (tick_and_resolve h e c)) = []
            \<and> (\<forall>h'. \<not> status_poller_active h' (fst (tick_and_resolve h e c))
                     \<and> \<not> logs_poller_active h' (fst (tick_and_resolve h e c)))"
    if "map_of (intervals (fst c)) h = Some (StatusPoll j)" for h j
  proof (rule stopped)
    show "fst (tick_and_resolve h e c)
        = fst (statusTick_resume j (status_response e) (statusTick_start j (fst c)))"
      using that by (rule tick_and_resolve_status)
    from ok show "pollers_ok (statusTick_start j (fst c))"
      by (rule pollers_ok_timers) simp
  qed
  from r t show ?thesis by blast
qed

theorem terminal_status_stops_both_pollers_in_same_tick_witness:
  "reachable conf_two_ticks
   \<and> observes_terminal (status_response env_completed)
   \<and> snd conf_two_ticks ! 1 = AwaitStatus (Some (lit ''abc123''))
   \<and> map_of (intervals (fst conf_two_ticks)) 1 = Some (StatusPoll (Some (lit ''abc123'')))
   \<and> logs_poller_active 2 (fst conf_two_ticks)
   \<and> \<not> logs_poller_active 2 (fst (step (Resume 1) env_completed conf_two_ticks))
   \<and> \<not> status_poller_active 1 (fst (step (Resume 1) env_completed conf_two_ticks))
   \<and> logsPollInterval (fst (step (Resume 1) env_completed conf_two_ticks)) = None
   \<and> \<not> logs_poller_active 2 (fst (tick_and_resolve 1 env_completed conf_two_ticks))
   \<and> intervals (fst (tick_and_resolve 1 env_completed conf_two_ticks)) = []"
proof -
  note t = terminal_status_stops_both_pollers_in_same_tick
             [OF reachable_conf_two_ticks env_facts(2)]
  have l: "1 < length (snd conf_two_ticks)" by (simp add: conf_two_ticks_pollers)
  have a: "logs_poller_active 2 (fst conf_two_ticks)"
    using page1_pollers(2) by (simp add: active_logs_def2 conf_two_ticks_pollers(5))
  from t l conf_two_ticks_pollers(1,2) reachable_conf_two_ticks env_facts(2) a
  show ?thesis by blast
qed


section \<open>The Log Stream Poller\<close>












end
